theory Spec2Isabelle
  imports Complex_Main "HOL-Library.Sublist"
begin

section \<open>Regular expressions of the validators\<close>

text \<open>
  The repository validates strings with JavaScript regular expressions, all of them
  anchored by \<^verbatim>\<open>^\<close> and \<^verbatim>\<open>$\<close> and none with the \<^verbatim>\<open>m\<close> flag, so
  \<^verbatim>\<open>pattern.test(s)\<close> asks whether the whole of \<open>s\<close> is in the pattern's language.
  A pattern is a value of \<open>rexp\<close>; \<open>test\<close> decides membership by taking the
  derivative of the pattern along the string. Strings are lists of single-byte
  characters.
\<close>

datatype rexp =
    Fail
  | Eps
  | Cls "char \<Rightarrow> bool"
  | Alt rexp rexp
  | Seq rexp rexp
  | Many rexp

fun nullable :: "rexp \<Rightarrow> bool" where
  "nullable Fail = False"
| "nullable Eps = True"
| "nullable (Cls p) = False"
| "nullable (Alt r s) = (nullable r \<or> nullable s)"
| "nullable (Seq r s) = (nullable r \<and> nullable s)"
| "nullable (Many r) = True"

fun deriv :: "char \<Rightarrow> rexp \<Rightarrow> rexp" where
  "deriv c Fail = Fail"
| "deriv c Eps = Fail"
| "deriv c (Cls p) = (if p c then Eps else Fail)"
| "deriv c (Alt r s) = Alt (deriv c r) (deriv c s)"
| "deriv c (Seq r s) =
     (if nullable r then Alt (Seq (deriv c r) s) (deriv c s) else Seq (deriv c r) s)"
| "deriv c (Many r) = Seq (deriv c r) (Many r)"

fun test :: "rexp \<Rightarrow> string \<Rightarrow> bool" where
  "test r [] = nullable r"
| "test r (c # cs) = test (deriv c r) cs"

text \<open>The declarative reading of a pattern: the set of strings it denotes.\<close>

definition cat :: "string set \<Rightarrow> string set \<Rightarrow> string set" where
  "cat A B = {u @ v | u v. u \<in> A \<and> v \<in> B}"

inductive_set rep :: "string set \<Rightarrow> string set" for A :: "string set" where
  rep_none: "[] \<in> rep A"
| rep_more: "u \<in> A \<Longrightarrow> v \<in> rep A \<Longrightarrow> u @ v \<in> rep A"

fun lang :: "rexp \<Rightarrow> string set" where
  "lang Fail = {}"
| "lang Eps = {[]}"
| "lang (Cls p) = {[c] | c. p c}"
| "lang (Alt r s) = lang r \<union> lang s"
| "lang (Seq r s) = cat (lang r) (lang s)"
| "lang (Many r) = rep (lang r)"

text \<open>The pattern constructors the source uses: a literal, \<open>r+\<close>, \<open>r{n,}\<close>.\<close>

fun lit :: "string \<Rightarrow> rexp" where
  "lit [] = Eps"
| "lit (c # cs) = Seq (Cls (\<lambda>x. x = c)) (lit cs)"

definition plus1 :: "rexp \<Rightarrow> rexp" where
  "plus1 r = Seq r (Many r)"

fun at_least :: "nat \<Rightarrow> rexp \<Rightarrow> rexp" where
  "at_least 0 r = Many r"
| "at_least (Suc n) r = Seq r (at_least n r)"

text \<open>
  A lookahead \<^verbatim>\<open>(?=r)\<close> at the start of the input holds when some prefix of the
  input matches \<open>r\<close>.
\<close>

definition lookahead :: "rexp \<Rightarrow> string \<Rightarrow> bool" where
  "lookahead r s = test (Seq r (Many (Cls (\<lambda>c. True)))) s"

text \<open>Character classes: \<^verbatim>\<open>\d\<close>, \<^verbatim>\<open>[a-z]\<close>, \<^verbatim>\<open>[A-Z]\<close>, \<^verbatim>\<open>[!@#$%^&*]\<close>,
  \<^verbatim>\<open>[a-zA-Z0-9_]\<close>, \<^verbatim>\<open>[\d\.]\<close> and the dot, which matches every character but a
  line terminator.\<close>

definition digit :: "char \<Rightarrow> bool" where
  "digit c = (c \<in> set ''0123456789'')"

definition lower :: "char \<Rightarrow> bool" where
  "lower c = (c \<in> set ''abcdefghijklmnopqrstuvwxyz'')"

definition upper :: "char \<Rightarrow> bool" where
  "upper c = (c \<in> set ''ABCDEFGHIJKLMNOPQRSTUVWXYZ'')"

definition special :: "char \<Rightarrow> bool" where
  "special c = (c \<in> set ''!@#$%^&*'')"

definition word_char :: "char \<Rightarrow> bool" where
  "word_char c = (lower c \<or> upper c \<or> digit c \<or> c = CHR ''_'')"

definition digit_or_dot :: "char \<Rightarrow> bool" where
  "digit_or_dot c = (digit c \<or> c = CHR ''.'')"

definition dot :: "char \<Rightarrow> bool" where
  "dot c = (c \<noteq> CHR 0x0A \<and> c \<noteq> CHR 0x0D)"

subsection \<open>validateFirmwareVersion (routes/index.js and database/queries.js)\<close>

text \<open>\<^verbatim>\<open>/^\d+\.\d+\.\d+$/\<close>, the same pattern in the route module and inside
  \<^verbatim>\<open>setLatestStableFirmwareVersion\<close>.\<close>

definition versionPattern :: rexp where
  "versionPattern =
     Seq (plus1 (Cls digit)) (Seq (lit ''.'') (Seq (plus1 (Cls digit))
       (Seq (lit ''.'') (plus1 (Cls digit)))))"

definition validateFirmwareVersion :: "string \<Rightarrow> bool" where
  "validateFirmwareVersion version = test versionPattern version"

text \<open>What the specification calls a \<open>major.minor.patch\<close> string: three non-empty runs
  of digits separated by dots.\<close>

definition digits :: "string \<Rightarrow> bool" where
  "digits s = (s \<noteq> [] \<and> list_all digit s)"

definition major_minor_patch :: "string \<Rightarrow> bool" where
  "major_minor_patch v =
     (\<exists>a b c. v = a @ ''.'' @ b @ ''.'' @ c \<and> digits a \<and> digits b \<and> digits c)"

subsection \<open>validators/validator.js\<close>

text \<open>\<^verbatim>\<open>/^[a-zA-Z0-9_]{3,}$/\<close>\<close>

definition validateUsername :: "string \<Rightarrow> bool" where
  "validateUsername username = test (at_least 3 (Cls word_char)) username"

text \<open>\<^verbatim>\<open>/^(?=.*\d)(?=.*[!@#$%^&*])(?=.*[a-z])(?=.*[A-Z]).{6,}$/\<close>\<close>

definition validatePassword :: "string \<Rightarrow> bool" where
  "validatePassword password =
     (lookahead (Seq (Many (Cls dot)) (Cls digit)) password \<and>
      lookahead (Seq (Many (Cls dot)) (Cls special)) password \<and>
      lookahead (Seq (Many (Cls dot)) (Cls lower)) password \<and>
      lookahead (Seq (Many (Cls dot)) (Cls upper)) password \<and>
      test (at_least 6 (Cls dot)) password)"

section \<open>JavaScript params\<close>

text \<open>
  What \<^verbatim>\<open>JSON.parse\<close> can return, and \<^verbatim>\<open>undefined\<close>, the value of a property
  that is not there. An object lists each of its own properties once. Numbers are
  only passed from the payload to the store, never computed with, and are carried
  as reals.
\<close>

datatype jsval =
    JUndefined
  | JNull
  | JBool bool
  | JNumber real
  | JString string
  | JArray "jsval list"
  | JObject "(string \<times> jsval) list"

datatype js_error = SyntaxError | TypeError

text \<open>
  Reading a property \<^verbatim>\<open>v.name\<close>. On \<^verbatim>\<open>null\<close> and \<^verbatim>\<open>undefined\<close> the read
  throws a TypeError; on an object it gives the property or \<^verbatim>\<open>undefined\<close>; on
  the other params it gives \<^verbatim>\<open>undefined\<close> for every name the repository reads
  (none of them is \<^verbatim>\<open>length\<close> or an index).
\<close>

fun get_property :: "jsval \<Rightarrow> string \<Rightarrow> js_error + jsval" where
  "get_property JUndefined name = Inl TypeError"
| "get_property JNull name = Inl TypeError"
| "get_property (JObject props) name =
     Inr (case map_of props name of None \<Rightarrow> JUndefined | Some v \<Rightarrow> v)"
| "get_property v name = Inr JUndefined"

text \<open>The same read where the value is known not to be \<^verbatim>\<open>null\<close> or
  \<^verbatim>\<open>undefined\<close> (a destructuring pattern after a successful read).\<close>

definition property :: "jsval \<Rightarrow> string \<Rightarrow> jsval" where
  "property v name = (case get_property v name of Inl e \<Rightarrow> JUndefined | Inr x \<Rightarrow> x)"

section \<open>The relational store (database/connection.js)\<close>

text \<open>
  Time is the store's clock in whole seconds since the epoch:
  \<^verbatim>\<open>CURRENT_TIMESTAMP\<close> has a resolution of one second, and a stored timestamp
  stands for the text \<^verbatim>\<open>YYYY-MM-DD HH:MM:SS\<close> of that second. Every operation that
  reads the clock takes its value \<open>now\<close> as an argument.
\<close>

type_synonym timestamp = int

text \<open>
  A value bound to a statement parameter. The driver binds a string as text, a
  number as a number, a boolean as the integer 1 or 0, \<^verbatim>\<open>null\<close> as NULL, leaves
  the parameter of an \<^verbatim>\<open>undefined\<close> argument unbound (which is NULL), and binds any
  other object as the text of its \<^verbatim>\<open>toString()\<close>, kept here unevaluated.
  \<open>Coerced a v\<close> is what a column of affinity \<open>a\<close> makes of \<open>v\<close> where that is a
  conversion between text and number, also kept unevaluated.
\<close>

datatype affinity = TextAffinity | RealAffinity | IntegerAffinity

datatype sqlval =
    SqlNull
  | SqlNumber real
  | SqlText string
  | SqlTextOf jsval
  | Coerced affinity sqlval

fun bind_parameter :: "jsval \<Rightarrow> sqlval" where
  "bind_parameter JUndefined = SqlNull"
| "bind_parameter JNull = SqlNull"
| "bind_parameter (JBool b) = SqlNumber (if b then 1 else 0)"
| "bind_parameter (JNumber n) = SqlNumber n"
| "bind_parameter (JString s) = SqlText s"
| "bind_parameter v = SqlTextOf v"

text \<open>
  What a column stores of a bound value. NULL stays NULL under every affinity; a
  \<^verbatim>\<open>TEXT\<close> column keeps text and turns a number into its decimal text; a
  \<^verbatim>\<open>REAL\<close> or \<^verbatim>\<open>INTEGER\<close> column keeps a number and turns text into the number
  it spells, if it spells one, and keeps it as text otherwise.
\<close>

fun store :: "affinity \<Rightarrow> sqlval \<Rightarrow> sqlval" where
  "store a SqlNull = SqlNull"
| "store TextAffinity (SqlText s) = SqlText s"
| "store TextAffinity (SqlTextOf v) = SqlTextOf v"
| "store RealAffinity (SqlNumber n) = SqlNumber n"
| "store IntegerAffinity (SqlNumber n) = SqlNumber n"
| "store a v = Coerced a v"

datatype sqlite_error = SQLITE_ERROR | SQLITE_CONSTRAINT | SQLITE_RANGE

text \<open>
  \<^verbatim>\<open>stmt.run(arguments, callback)\<close> on a statement with \<open>n\<close> parameters, all of
  them written \<^verbatim>\<open>?\<close>. The driver looks at the first argument. An array is the
  list of parameters, and the other arguments are not read. Any other object is a set
  of named parameters. Otherwise the arguments themselves are the parameters, in
  order. The result is the value of each of the \<open>n\<close> parameters, NULL where none was
  bound, or the error of a parameter that the statement does not have.
\<close>

fun structured :: "jsval \<Rightarrow> bool" where
  "structured (JArray xs) = True"
| "structured (JObject props) = True"
| "structured v = False"

text \<open>Parameters by position: one beyond the statement's last is out of range,
  unless it is \<^verbatim>\<open>undefined\<close>, which is never bound.\<close>

definition bind_positional :: "nat \<Rightarrow> jsval list \<Rightarrow> sqlite_error + sqlval list" where
  "bind_positional n params =
     (if list_ex (\<lambda>v. v \<noteq> JUndefined) (drop n params) then Inl SQLITE_RANGE
      else Inr (map bind_parameter (take n params) @ replicate (n - length params) SqlNull))"

text \<open>
  Parameters by name. A property whose name, read as a number, is an integer of 32
  bits is bound at that index, which the driver keeps in 16 bits; any other name is
  looked up among the statement's named parameters, and a statement written with
  \<^verbatim>\<open>?\<close> has none, which gives index 0. Index 0 and an index beyond \<open>n\<close> are out
  of range. \<open>ToNumber\<close> is the platform's conversion of a string to a number
  (\<open>None\<close> where the result is not a finite number) and is a parameter. The
  properties are taken in the order in which the object lists them.
\<close>

definition parameter_index :: "(string \<Rightarrow> real option) \<Rightarrow> string \<Rightarrow> nat" where
  "parameter_index ToNumber name =
     (case ToNumber name of
        None \<Rightarrow> 0
      | Some x \<Rightarrow>
          if of_int \<lfloor>x\<rfloor> = x \<and> - 2147483648 \<le> \<lfloor>x\<rfloor> \<and> \<lfloor>x\<rfloor> \<le> 2147483647
          then nat (\<lfloor>x\<rfloor> mod 65536) else 0)"

fun bind_named ::
  "(string \<Rightarrow> real option) \<Rightarrow> nat \<Rightarrow> (string \<times> jsval) list \<Rightarrow> sqlval list
     \<Rightarrow> sqlite_error + sqlval list" where
  "bind_named ToNumber n [] bound = Inr bound"
| "bind_named ToNumber n ((name, v) # props) bound =
     (if v = JUndefined then bind_named ToNumber n props bound
      else if parameter_index ToNumber name = 0 \<or> n < parameter_index ToNumber name
      then Inl SQLITE_RANGE
      else bind_named ToNumber n props
             (bound[parameter_index ToNumber name - 1 := bind_parameter v]))"

fun stmt_run ::
  "(string \<Rightarrow> real option) \<Rightarrow> nat \<Rightarrow> jsval list \<Rightarrow> sqlite_error + sqlval list" where
  "stmt_run ToNumber n (JArray params # arguments) = bind_positional n params"
| "stmt_run ToNumber n (JObject props # arguments) =
     bind_named ToNumber n props (replicate n SqlNull)"
| "stmt_run ToNumber n arguments = bind_positional n arguments"

record sensor_row =
  sd_id :: nat
  sd_temperature :: sqlval
  sd_humidity :: sqlval
  sd_fanState :: sqlval
  sd_heaterState :: sqlval
  sd_deviceID :: sqlval
  sd_firmwareVersion :: sqlval
  sd_timestamp :: timestamp

record serial_row =
  sm_id :: nat
  sm_message :: sqlval

record firmware_row =
  fw_id :: nat
  fw_firmwareVersion :: "string option"
  fw_timestamp :: timestamp

record user_row =
  u_id :: nat
  u_username :: string
  u_password :: string

text \<open>
  The four tables of \<^verbatim>\<open>initializeDatabase\<close>, each the list of its rows in rowid
  order. A table whose \<^verbatim>\<open>CREATE TABLE IF NOT EXISTS\<close> failed (the failure is only
  logged) is absent, and every statement on an absent table fails.
\<close>

record database =
  SensorData :: "sensor_row list option"
  SerialMessages :: "serial_row list option"
  LatestStableFirmware :: "firmware_row list option"
  users :: "user_row list option"

text \<open>\<^verbatim>\<open>INTEGER PRIMARY KEY AUTOINCREMENT\<close>: one more than the largest id of the
  table (rows are never deleted).\<close>

definition next_id :: "nat list \<Rightarrow> nat" where
  "next_id ids = Suc (fold max ids 0)"

text \<open>
  \<^verbatim>\<open>ORDER BY key DESC LIMIT 1\<close>: the table is scanned in rowid order and a row
  replaces the one kept so far only when its key is strictly greater, so among rows
  with the greatest key the first one scanned is returned. (SQL leaves the choice
  among equal keys open; this is the choice the engine makes.)
\<close>

definition keep_greater :: "('r \<Rightarrow> 'k::linorder) \<Rightarrow> 'r \<Rightarrow> 'r option \<Rightarrow> 'r option" where
  "keep_greater key r best =
     (case best of None \<Rightarrow> Some r
      | Some b \<Rightarrow> if key b < key r then Some r else Some b)"

definition order_by_desc_limit_1 :: "('r \<Rightarrow> 'k::linorder) \<Rightarrow> 'r list \<Rightarrow> 'r option" where
  "order_by_desc_limit_1 key rows = fold (keep_greater key) rows None"

section \<open>The persistence layer (database/queries.js)\<close>

text \<open>
  Each function takes the database and returns it updated, together with what the
  source hands to its callback. \<^verbatim>\<open>insertData\<close> and \<^verbatim>\<open>insertSerialMessage\<close> have
  no callback of their own: the error that \<^verbatim>\<open>stmt.run\<close> reports is only logged,
  and is returned here beside the database. Both hand their arguments to
  \<^verbatim>\<open>stmt.run\<close> as they come, so both take the platform's \<open>ToNumber\<close>. In a
  bound list of \<open>n\<close> params the indices below \<open>n\<close> are all there.
\<close>

definition insertData ::
  "(string \<Rightarrow> real option) \<Rightarrow> database \<Rightarrow> timestamp
     \<Rightarrow> jsval \<Rightarrow> jsval \<Rightarrow> jsval \<Rightarrow> jsval \<Rightarrow> jsval \<Rightarrow> jsval
     \<Rightarrow> sqlite_error option \<times> database" where
  "insertData ToNumber db now temperature humidity fanState heaterState deviceID firmwareVersion =
     (case SensorData db of
        None \<Rightarrow> (Some SQLITE_ERROR, db)
      | Some rows \<Rightarrow>
          (case stmt_run ToNumber 6
                  [temperature, humidity, fanState, heaterState, deviceID, firmwareVersion] of
             Inl err \<Rightarrow> (Some err, db)
           | Inr bound \<Rightarrow>
               (None, db\<lparr>SensorData := Some (rows @
                  [\<lparr>sd_id = next_id (map sd_id rows),
                    sd_temperature = store RealAffinity (bound ! 0),
                    sd_humidity = store RealAffinity (bound ! 1),
                    sd_fanState = store IntegerAffinity (bound ! 2),
                    sd_heaterState = store IntegerAffinity (bound ! 3),
                    sd_deviceID = store TextAffinity (bound ! 4),
                    sd_firmwareVersion = store TextAffinity (bound ! 5),
                    sd_timestamp = now\<rparr>])\<rparr>)))"

text \<open>The liveness evaluator's answer: \<^verbatim>\<open>lastSeen\<close> is the row's stored timestamp or
  a literal string.\<close>

datatype last_seen = Stored timestamp | Literal string

record device_status =
  status :: string
  lastSeen :: last_seen

text \<open>
  \<^verbatim>\<open>checkDeviceStatus\<close>: the query selects the row with the greatest id together with
  \<^verbatim>\<open>strftime('%s','now') - strftime('%s',timestamp)\<close>, the age in whole seconds;
  \<open>row\<close> is absent on an empty table.
\<close>

definition checkDeviceStatus :: "database \<Rightarrow> timestamp \<Rightarrow> sqlite_error + device_status" where
  "checkDeviceStatus db now =
     (case SensorData db of
        None \<Rightarrow> Inl SQLITE_ERROR
      | Some rows \<Rightarrow>
          (let row = order_by_desc_limit_1 sd_id rows;
               timeDifference = (case row of Some r \<Rightarrow> Some (now - sd_timestamp r) | None \<Rightarrow> None)
           in (case (row, timeDifference) of
                 (Some r, Some d) \<Rightarrow>
                   if d \<le> 30 then Inr \<lparr>status = ''Online'', lastSeen = Stored (sd_timestamp r)\<rparr>
                   else Inr \<lparr>status = ''Offline'', lastSeen = Stored (sd_timestamp r)\<rparr>
               | (Some r, None) \<Rightarrow> Inr \<lparr>status = ''Offline'', lastSeen = Stored (sd_timestamp r)\<rparr>
               | (None, _) \<Rightarrow> Inr \<lparr>status = ''Offline'', lastSeen = Literal ''N/A''\<rparr>)))"

text \<open>\<^verbatim>\<open>insertSerialMessage\<close>: the column is \<^verbatim>\<open>TEXT NOT NULL\<close>, so a NULL
  parameter violates the constraint and nothing is stored.\<close>

definition insertSerialMessage ::
  "(string \<Rightarrow> real option) \<Rightarrow> database \<Rightarrow> jsval \<Rightarrow> sqlite_error option \<times> database" where
  "insertSerialMessage ToNumber db serialMessage =
     (case SerialMessages db of
        None \<Rightarrow> (Some SQLITE_ERROR, db)
      | Some rows \<Rightarrow>
          (case stmt_run ToNumber 1 [serialMessage] of
             Inl err \<Rightarrow> (Some err, db)
           | Inr bound \<Rightarrow>
               if store TextAffinity (bound ! 0) = SqlNull then (Some SQLITE_CONSTRAINT, db)
               else (None, db\<lparr>SerialMessages := Some (rows @
                       [\<lparr>sm_id = next_id (map sm_id rows),
                         sm_message = store TextAffinity (bound ! 0)\<rparr>])\<rparr>)))"

text \<open>\<^verbatim>\<open>setLatestStableFirmwareVersion\<close>: the callback receives \<^verbatim>\<open>(err, null)\<close>
  (here \<open>Inl err\<close>) or \<^verbatim>\<open>(null, result)\<close> (here \<open>Inr result\<close>).\<close>

definition invalid_version_error :: jsval where
  "invalid_version_error =
     JObject [(''error'',
       JString ''Invalid firmware version format. Use major.minor.patch (e.g., 1.0.2)'')]"

definition setLatestStableFirmwareVersion ::
  "database \<Rightarrow> timestamp \<Rightarrow> string \<Rightarrow> (jsval + jsval) \<times> database" where
  "setLatestStableFirmwareVersion db now firmwareVersion =
     (if \<not> validateFirmwareVersion firmwareVersion then (Inl invalid_version_error, db)
      else
        (case LatestStableFirmware db of
           None \<Rightarrow>
             (Inl (JObject [(''error'', JString ''Failed to set latest stable firmware version'')]), db)
         | Some rows \<Rightarrow>
             (Inr (JObject [(''message'', JString ''Latest stable firmware version set successfully'')]),
              db\<lparr>LatestStableFirmware := Some (rows @
                [\<lparr>fw_id = next_id (map fw_id rows),
                  fw_firmwareVersion = Some firmwareVersion,
                  fw_timestamp = now\<rparr>])\<rparr>)))"

text \<open>\<^verbatim>\<open>fetchLatestStableFirmwareVersion\<close>: \<^verbatim>\<open>SELECT firmwareVersion ... ORDER BY
  timestamp DESC LIMIT 1\<close>. The result is the selected row's \<^verbatim>\<open>firmwareVersion\<close>
  (\<open>None\<close> for NULL), or no row.\<close>

definition fetchLatestStableFirmwareVersion ::
  "database \<Rightarrow> sqlite_error + string option option" where
  "fetchLatestStableFirmwareVersion db =
     (case LatestStableFirmware db of
        None \<Rightarrow> Inl SQLITE_ERROR
      | Some rows \<Rightarrow> Inr (map_option fw_firmwareVersion (order_by_desc_limit_1 fw_timestamp rows)))"

text \<open>\<^verbatim>\<open>createUser\<close>: \<^verbatim>\<open>username TEXT UNIQUE\<close> rejects a second row with the same
  username. \<^verbatim>\<open>findUserByUsername\<close>: the first row with that username, if any.\<close>

definition createUser :: "database \<Rightarrow> string \<Rightarrow> string \<Rightarrow> sqlite_error option \<times> database" where
  "createUser db username password =
     (case users db of
        None \<Rightarrow> (Some SQLITE_ERROR, db)
      | Some rows \<Rightarrow>
          if username \<in> set (map u_username rows) then (Some SQLITE_CONSTRAINT, db)
          else (None, db\<lparr>users := Some (rows @
                  [\<lparr>u_id = next_id (map u_id rows), u_username = username,
                    u_password = password\<rparr>])\<rparr>))"

definition findUserByUsername :: "database \<Rightarrow> string \<Rightarrow> sqlite_error + user_row option" where
  "findUserByUsername db username =
     (case users db of
        None \<Rightarrow> Inl SQLITE_ERROR
      | Some rows \<Rightarrow> Inr (find (\<lambda>r. u_username r = username) rows))"

section \<open>The message dispatcher (mqtt/mqttHandler.js)\<close>

text \<open>
  The listener that \<^verbatim>\<open>handleMQTTMessages\<close> registers for \<^verbatim>\<open>'message'\<close>. A storage
  call is recorded with its arguments in the order of the source. \<^verbatim>\<open>JSON.parse\<close>
  is the platform's and is a parameter: it returns the parsed value or throws.
\<close>

datatype storage_call =
    InsertData jsval jsval jsval jsval jsval jsval
  | InsertSerialMessage jsval

text \<open>The body of the \<^verbatim>\<open>try\<close> block: the calls it makes, or the error it throws.\<close>

definition try_block :: "(string \<Rightarrow> js_error + jsval) \<Rightarrow> string \<Rightarrow> js_error + storage_call list" where
  "try_block JSON_parse message =
     (case JSON_parse message of
        Inl e \<Rightarrow> Inl e
      | Inr messageObject \<Rightarrow>
          (case get_property messageObject ''messageType'' of
             Inl e \<Rightarrow> Inl e
           | Inr messageType \<Rightarrow>
               if messageType = JString ''data'' then
                 Inr [InsertData (property messageObject ''temperature'')
                        (property messageObject ''humidity'')
                        (JBool False)
                        (property messageObject ''heaterState'')
                        (property messageObject ''deviceID'')
                        (property messageObject ''version'')]
               else if messageType = JString ''serial'' then
                 Inr [InsertSerialMessage (property messageObject ''serialMessage'')]
               else Inr []))"

text \<open>The \<^verbatim>\<open>catch\<close> clause logs the error and makes no call.\<close>

definition on_message :: "(string \<Rightarrow> js_error + jsval) \<Rightarrow> string \<Rightarrow> storage_call list" where
  "on_message JSON_parse message =
     (case try_block JSON_parse message of Inl e \<Rightarrow> [] | Inr calls \<Rightarrow> calls)"

fun perform ::
  "(string \<Rightarrow> real option) \<Rightarrow> timestamp \<Rightarrow> storage_call \<Rightarrow> database \<Rightarrow> database" where
  "perform ToNumber now
     (InsertData temperature humidity fanState heaterState deviceID firmwareVersion) db =
     snd (insertData ToNumber db now temperature humidity fanState heaterState deviceID
            firmwareVersion)"
| "perform ToNumber now (InsertSerialMessage serialMessage) db =
     snd (insertSerialMessage ToNumber db serialMessage)"

definition handleMQTTMessages ::
  "(string \<Rightarrow> js_error + jsval) \<Rightarrow> (string \<Rightarrow> real option) \<Rightarrow> timestamp \<Rightarrow> database
     \<Rightarrow> string \<Rightarrow> database" where
  "handleMQTTMessages JSON_parse ToNumber now db message =
     fold (perform ToNumber now) (on_message JSON_parse message) db"

section \<open>The HTTP handlers (routes/index.js, routes/auth.js)\<close>

text \<open>A response is its status code and its JSON body; \<^verbatim>\<open>res.json\<close> without
  \<^verbatim>\<open>res.status\<close> answers 200.\<close>

record response =
  code :: nat
  json :: jsval

text \<open>\<^verbatim>\<open>GET /latest-stable-firmware\<close>. \<^verbatim>\<open>!result\<close> holds when no row came back,
  \<^verbatim>\<open>!result.firmwareVersion\<close> when the field is NULL or the empty string.\<close>

definition route_latest_stable_firmware :: "database \<Rightarrow> response" where
  "route_latest_stable_firmware db =
     (case fetchLatestStableFirmwareVersion db of
        Inl err \<Rightarrow> \<lparr>code = 500, json = JObject [(''error'', JString ''Internal Server Error'')]\<rparr>
      | Inr result \<Rightarrow>
          (case result of
             None \<Rightarrow>
               \<lparr>code = 404, json = JObject [(''error'', JString ''No stable firmware version found'')]\<rparr>
           | Some None \<Rightarrow>
               \<lparr>code = 404, json = JObject [(''error'', JString ''No stable firmware version found'')]\<rparr>
           | Some (Some firmwareVersion) \<Rightarrow>
               if firmwareVersion = [] then
                 \<lparr>code = 404, json = JObject [(''error'', JString ''No stable firmware version found'')]\<rparr>
               else \<lparr>code = 200, json = JObject [(''firmwareVersion'', JString firmwareVersion)]\<rparr>))"

text \<open>\<^verbatim>\<open>GET /set-stable-latest-version\<close>; the query parameter may be missing.\<close>

definition route_set_stable_latest_version ::
  "database \<Rightarrow> timestamp \<Rightarrow> string option \<Rightarrow> response \<times> database" where
  "route_set_stable_latest_version db now query =
     (case query of
        None \<Rightarrow> (\<lparr>code = 400, json = invalid_version_error\<rparr>, db)
      | Some firmwareVersion \<Rightarrow>
          if firmwareVersion = [] \<or> \<not> validateFirmwareVersion firmwareVersion then
            (\<lparr>code = 400, json = invalid_version_error\<rparr>, db)
          else
            (case setLatestStableFirmwareVersion db now firmwareVersion of
               (Inl err, db') \<Rightarrow> (\<lparr>code = 500, json = err\<rparr>, db')
             | (Inr result, db') \<Rightarrow> (\<lparr>code = 200, json = result\<rparr>, db')))"

text \<open>\<^verbatim>\<open>POST /register\<close>, for a request body whose \<^verbatim>\<open>username\<close> and
  \<^verbatim>\<open>password\<close> are strings.\<close>

definition username_rule :: jsval where
  "username_rule = JObject [(''error'', JString
     ''Username must be at least 3 characters long and contain only alphanumeric characters and underscores'')]"

definition password_rule :: jsval where
  "password_rule = JObject [(''error'', JString
     ''Password must be at least 6 characters long and contain at least one uppercase letter, one lowercase letter, one number, and one special character'')]"

definition route_register :: "database \<Rightarrow> string \<Rightarrow> string \<Rightarrow> response \<times> database" where
  "route_register db username password =
     (if \<not> validateUsername username then (\<lparr>code = 400, json = username_rule\<rparr>, db)
      else if \<not> validatePassword password then (\<lparr>code = 400, json = password_rule\<rparr>, db)
      else
        (case findUserByUsername db username of
           Inl err \<Rightarrow> (\<lparr>code = 500, json = JObject [(''error'', JString ''Internal Server Error'')]\<rparr>, db)
         | Inr (Some user) \<Rightarrow>
             (\<lparr>code = 400, json = JObject [(''error'', JString ''Username already exists'')]\<rparr>, db)
         | Inr None \<Rightarrow>
             (case createUser db username password of
                (Some err, db') \<Rightarrow>
                  (\<lparr>code = 500, json = JObject [(''error'', JString ''Internal Server Error'')]\<rparr>, db')
              | (None, db') \<Rightarrow>
                  (\<lparr>code = 201, json = JObject [(''message'', JString ''User registered successfully'')]\<rparr>,
                   db'))))"

section \<open>Object storage (database/firebaseStorage.js)\<close>

text \<open>
  The bucket holds named objects, each name once. A call to the storage service
  fails when the service cannot be reached; deleting a name that is not in the
  bucket fails as well. A failed operation returns the error only.
\<close>

record stored_object =
  content :: string
  contentType :: string

record uploaded_file =
  originalname :: string
  mimetype :: string
  buffer :: string

record bucket =
  objects :: "(string \<times> stored_object) list"
  online :: bool

datatype storage_error = Unavailable | NoSuchObject

text \<open>\<^verbatim>\<open>bucket.getFiles({ prefix })\<close>: the names that start with the prefix;
  \<^verbatim>\<open>bucket.getFiles()\<close>: all names.\<close>

definition getFiles :: "bucket \<Rightarrow> string \<Rightarrow> storage_error + string list" where
  "getFiles b pre =
     (if online b then Inr (filter (prefix pre) (map fst (objects b))) else Inl Unavailable)"

definition delete_file :: "bucket \<Rightarrow> string \<Rightarrow> storage_error + bucket" where
  "delete_file b name =
     (if \<not> online b then Inl Unavailable
      else if name \<notin> set (map fst (objects b)) then Inl NoSuchObject
      else Inr (b\<lparr>objects := filter (\<lambda>entry. fst entry \<noteq> name) (objects b)\<rparr>))"

text \<open>\<^verbatim>\<open>fileRef.save\<close> replaces the object of that name or adds it.\<close>

definition save :: "bucket \<Rightarrow> string \<Rightarrow> stored_object \<Rightarrow> storage_error + bucket" where
  "save b name obj =
     (if \<not> online b then Inl Unavailable
      else Inr (b\<lparr>objects := filter (\<lambda>entry. fst entry \<noteq> name) (objects b) @ [(name, obj)]\<rparr>))"

text \<open>The loop \<^verbatim>\<open>for (const existingFile of existingFiles[0]) await existingFile.delete()\<close>.\<close>

fun delete_each :: "bucket \<Rightarrow> string list \<Rightarrow> storage_error + bucket" where
  "delete_each b [] = Inr b"
| "delete_each b (name # names) =
     (case delete_file b name of Inl e \<Rightarrow> Inl e | Inr b' \<Rightarrow> delete_each b' names)"

definition uploadFileToFirebaseStorage ::
  "bucket \<Rightarrow> uploaded_file \<Rightarrow> string \<Rightarrow> storage_error + string \<times> bucket" where
  "uploadFileToFirebaseStorage b file firmwareVersion =
     (let destinationPath = ''firmware/'' @ firmwareVersion @ ''/firmware.bin'' in
      case getFiles b (''firmware/'' @ firmwareVersion @ ''/'') of
        Inl e \<Rightarrow> Inl e
      | Inr existingFiles \<Rightarrow>
          (case (if length existingFiles > 0 then delete_each b existingFiles else Inr b) of
             Inl e \<Rightarrow> Inl e
           | Inr b1 \<Rightarrow>
               (case save b1 destinationPath \<lparr>content = buffer file, contentType = mimetype file\<rparr> of
                  Inl e \<Rightarrow> Inl e
                | Inr b2 \<Rightarrow> Inr (destinationPath, b2))))"

text \<open>
  \<^verbatim>\<open>filePath.match(/^firmware\/([\d\.]+)\/firmware\.bin$/)\<close> and its first group.
  The class \<^verbatim>\<open>[\d\.]\<close> has no slash, so the group is the longest run of digits
  and dots after the literal \<^verbatim>\<open>firmware/\<close>, and what follows the run must be
  the literal \<^verbatim>\<open>/firmware.bin\<close>. \<open>firmwarePathPattern\<close> is the pattern itself.
\<close>

definition firmwarePathPattern :: rexp where
  "firmwarePathPattern =
     Seq (lit ''firmware/'') (Seq (plus1 (Cls digit_or_dot)) (lit ''/firmware.bin''))"

fun strip_prefix :: "string \<Rightarrow> string \<Rightarrow> string option" where
  "strip_prefix [] s = Some s"
| "strip_prefix (c # cs) [] = None"
| "strip_prefix (c # cs) (d # ds) = (if c = d then strip_prefix cs ds else None)"

definition match_group_1 :: "string \<Rightarrow> string option" where
  "match_group_1 filePath =
     (case strip_prefix ''firmware/'' filePath of
        None \<Rightarrow> None
      | Some rest \<Rightarrow>
          if takeWhile digit_or_dot rest \<noteq> [] \<and> dropWhile digit_or_dot rest = ''/firmware.bin''
          then Some (takeWhile digit_or_dot rest) else None)"

text \<open>A JavaScript \<^verbatim>\<open>Set\<close> of strings keeps its elements in insertion order, each
  once; \<^verbatim>\<open>Array.from\<close> lists them in that order.\<close>

definition Set_add :: "string \<Rightarrow> string list \<Rightarrow> string list" where
  "Set_add v versions = (if v \<in> set versions then versions else versions @ [v])"

definition collect_version :: "string \<Rightarrow> string list \<Rightarrow> string list" where
  "collect_version filePath versions =
     (case match_group_1 filePath of None \<Rightarrow> versions | Some version \<Rightarrow> Set_add version versions)"

definition listFirmwareVersions :: "bucket \<Rightarrow> storage_error + string list" where
  "listFirmwareVersions b =
     (case getFiles b [] of
        Inl error \<Rightarrow> Inl error
      | Inr files \<Rightarrow> Inr (fold collect_version files []))"

section \<open>Sample states and inputs\<close>

text \<open>The store of a fresh \<^verbatim>\<open>data.db\<close> after \<^verbatim>\<open>initializeDatabase\<close>: four empty
  tables.\<close>

definition fresh_database :: database where
  "fresh_database =
     \<lparr>SensorData = Some [], SerialMessages = Some [], LatestStableFirmware = Some [],
      users = Some []\<rparr>"

text \<open>A stand-in for the platform's conversion of a property name to a number: of
  the names in the samples, only \<^verbatim>\<open>1\<close> is a number.\<close>

definition sample_ToNumber :: "string \<Rightarrow> real option" where
  "sample_ToNumber name = (if name = ''1'' then Some 1 else None)"

text \<open>One reading stored at second 1000, the first sample payload of the
  specification.\<close>

definition one_reading :: database where
  "one_reading =
     snd (insertData sample_ToNumber fresh_database 1000 (JNumber 21.5) (JNumber 40) (JBool False)
            (JString ''ON'') (JString ''d1'') (JString ''1.0.0''))"

text \<open>A pointer table whose only row has no version (the column allows NULL).\<close>

definition pointer_without_version :: database where
  "pointer_without_version =
     fresh_database\<lparr>LatestStableFirmware :=
       Some [\<lparr>fw_id = 1, fw_firmwareVersion = None, fw_timestamp = 100\<rparr>]\<rparr>"

text \<open>One registered user.\<close>

definition one_user :: database where
  "one_user = snd (createUser fresh_database ''alice'' ''Secret1!'')"

text \<open>The sample payloads of the specification, a data message without telemetry,
  one whose temperature is an object, and
  a stand-in for \<^verbatim>\<open>JSON.parse\<close> that knows them and rejects everything else.\<close>

definition data_payload :: string where
  \<open>data_payload = ''{"messageType":"data","temperature":21.5,"humidity":40,"heaterState":"ON","deviceID":"d1","version":"1.0.0"}''\<close>

definition serial_payload :: string where
  \<open>serial_payload = ''{"messageType":"serial","serialMessage":"boot ok"}''\<close>

definition unknown_payload :: string where
  \<open>unknown_payload = ''{"messageType":"unknown"}''\<close>

definition bare_data_payload :: string where
  \<open>bare_data_payload = ''{"messageType":"data"}''\<close>

definition object_temperature_payload :: string where
  \<open>object_temperature_payload = ''{"messageType":"data","temperature":{"a":1}}''\<close>

definition sample_parse :: "string \<Rightarrow> js_error + jsval" where
  "sample_parse message =
     (if message = data_payload then
        Inr (JObject [(''messageType'', JString ''data''), (''temperature'', JNumber 21.5),
               (''humidity'', JNumber 40), (''heaterState'', JString ''ON''),
               (''deviceID'', JString ''d1''), (''version'', JString ''1.0.0'')])
      else if message = serial_payload then
        Inr (JObject [(''messageType'', JString ''serial''), (''serialMessage'', JString ''boot ok'')])
      else if message = unknown_payload then Inr (JObject [(''messageType'', JString ''unknown'')])
      else if message = bare_data_payload then Inr (JObject [(''messageType'', JString ''data'')])
      else if message = object_temperature_payload then
        Inr (JObject [(''messageType'', JString ''data''),
               (''temperature'', JObject [(''a'', JNumber 1)])])
      else if message = ''null'' then Inr JNull
      else Inl SyntaxError)"

text \<open>Buckets and uploads.\<close>

definition sample_bucket :: bucket where
  "sample_bucket =
     \<lparr>objects =
        [(''firmware/1.0.0/firmware.bin'', \<lparr>content = ''old'', contentType = ''application/octet-stream''\<rparr>),
         (''firmware/1.0.0/notes.txt'', \<lparr>content = ''n'', contentType = ''text/plain''\<rparr>),
         (''firmware/2.0.0/firmware.bin'', \<lparr>content = ''two'', contentType = ''application/octet-stream''\<rparr>)],
      online = True\<rparr>"

definition first_file :: uploaded_file where
  "first_file = \<lparr>originalname = ''a.bin'', mimetype = ''application/octet-stream'', buffer = ''AAAA''\<rparr>"

definition second_file :: uploaded_file where
  "second_file = \<lparr>originalname = ''b.bin'', mimetype = ''application/octet-stream'', buffer = ''BBBB''\<rparr>"

definition listed_bucket :: bucket where
  "listed_bucket =
     \<lparr>objects =
        [(''firmware/1.0.0/firmware.bin'', \<lparr>content = ''a'', contentType = ''application/octet-stream''\<rparr>),
         (''firmware/1..2/firmware.bin'', \<lparr>content = ''b'', contentType = ''application/octet-stream''\<rparr>),
         (''firmware/1.0.0/notes.txt'', \<lparr>content = ''c'', contentType = ''text/plain''\<rparr>),
         (''firmware/1.2.3.4/firmware.bin'', \<lparr>content = ''d'', contentType = ''application/octet-stream''\<rparr>),
         (''firmware/v1/firmware.bin'', \<lparr>content = ''e'', contentType = ''application/octet-stream''\<rparr>),
         (''backup/firmware/1.0.0/firmware.bin'', \<lparr>content = ''f'', contentType = ''application/octet-stream''\<rparr>)],
      online = True\<rparr>"

section \<open>The matcher decides the language of a pattern\<close>

lemma nil_in_cat: "[] \<in> cat A B \<longleftrightarrow> [] \<in> A \<and> [] \<in> B"
  by (auto simp: cat_def)

lemma nullable_iff: "nullable r \<longleftrightarrow> [] \<in> lang r"
  by (induction r) (auto simp: nil_in_cat rep_none)

lemma cons_in_cat:
  "c # w \<in> cat A B \<longleftrightarrow> ([] \<in> A \<and> c # w \<in> B) \<or> (\<exists>u v. c # u \<in> A \<and> v \<in> B \<and> w = u @ v)"
  by (auto simp: cat_def Cons_eq_append_conv)

lemma rep_cons_split:
  assumes "x \<in> rep A" and "x = c # w"
  shows "\<exists>u v. c # u \<in> A \<and> v \<in> rep A \<and> w = u @ v"
  using assms
proof (induction arbitrary: w)
  case rep_none
  then show ?case by simp
next
  case (rep_more u v)
  show ?case
  proof (cases u)
    case Nil
    with rep_more show ?thesis by simp
  next
    case (Cons d u')
    with rep_more.prems have "d = c" and "w = u' @ v" by simp_all
    with Cons rep_more.hyps show ?thesis by blast
  qed
qed

lemma cons_in_rep:
  "c # w \<in> rep A \<longleftrightarrow> (\<exists>u v. c # u \<in> A \<and> v \<in> rep A \<and> w = u @ v)"
proof
  assume "c # w \<in> rep A"
  then show "\<exists>u v. c # u \<in> A \<and> v \<in> rep A \<and> w = u @ v"
    by (rule rep_cons_split) simp
next
  assume "\<exists>u v. c # u \<in> A \<and> v \<in> rep A \<and> w = u @ v"
  then obtain u v where "c # u \<in> A" "v \<in> rep A" "w = u @ v" by blast
  then show "c # w \<in> rep A" using rep_more [of "c # u" A v] by simp
qed

lemma lang_deriv: "w \<in> lang (deriv c r) \<longleftrightarrow> c # w \<in> lang r"
proof (induction r arbitrary: w)
  case (Seq r s)
  have step: "w \<in> cat (lang (deriv c r)) (lang s) \<longleftrightarrow>
      (\<exists>u v. c # u \<in> lang r \<and> v \<in> lang s \<and> w = u @ v)"
    using Seq.IH(1) by (auto simp: cat_def)
  show ?case
    using Seq.IH(2) [of w] step by (simp add: cons_in_cat nullable_iff) blast
next
  case (Many r)
  have "w \<in> cat (lang (deriv c r)) (rep (lang r)) \<longleftrightarrow>
      (\<exists>u v. c # u \<in> lang r \<and> v \<in> rep (lang r) \<and> w = u @ v)"
    using Many.IH by (auto simp: cat_def)
  then show ?case by (simp add: cons_in_rep)
qed auto

lemma test_iff: "test r s \<longleftrightarrow> s \<in> lang r"
  by (induction s arbitrary: r) (simp_all add: nullable_iff lang_deriv)

lemma lang_lit: "lang (lit s) = {s}"
  by (induction s) (auto simp: cat_def)

lemma rep_cls: "rep {[c] | c. p c} = {s. list_all p s}"
proof (rule set_eqI, rule iffI)
  fix s assume "s \<in> rep {[c] | c. p c}"
  then show "s \<in> {s. list_all p s}" by induction auto
next
  fix s assume "s \<in> {s. list_all p s}"
  then have "list_all p s" by simp
  then show "s \<in> rep {[c] | c. p c}"
  proof (induction s)
    case Nil show ?case by (rule rep_none)
  next
    case (Cons c s)
    then have "[c] \<in> {[c] | c. p c}" and "s \<in> rep {[c] | c. p c}" by auto
    then have "[c] @ s \<in> rep {[c] | c. p c}" by (rule rep_more)
    then show ?case by simp
  qed
qed

lemma cat_cls: "s \<in> cat {[c] | c. p c} B \<longleftrightarrow> (\<exists>c t. s = c # t \<and> p c \<and> t \<in> B)"
proof
  assume "s \<in> cat {[c] | c. p c} B"
  then show "\<exists>c t. s = c # t \<and> p c \<and> t \<in> B" by (auto simp: cat_def)
next
  assume "\<exists>c t. s = c # t \<and> p c \<and> t \<in> B"
  then obtain c t where "s = [c] @ t" "p c" "t \<in> B" by auto
  then show "s \<in> cat {[c] | c. p c} B" unfolding cat_def by blast
qed

lemma lang_plus1_cls: "lang (plus1 (Cls p)) = {s. s \<noteq> [] \<and> list_all p s}"
proof (rule set_eqI)
  fix s show "s \<in> lang (plus1 (Cls p)) \<longleftrightarrow> s \<in> {s. s \<noteq> [] \<and> list_all p s}"
    by (cases s) (auto simp: plus1_def rep_cls cat_cls)
qed

lemma lang_plus1_digit: "lang (plus1 (Cls digit)) = {s. digits s}"
  by (simp add: lang_plus1_cls digits_def)

lemma validateFirmwareVersion_iff: "validateFirmwareVersion v \<longleftrightarrow> major_minor_patch v"
  unfolding validateFirmwareVersion_def major_minor_patch_def test_iff versionPattern_def
  by (simp add: lang_plus1_digit lang_lit cat_def) blast

section \<open>Queries for the latest row\<close>

lemma obdl_snoc:
  "order_by_desc_limit_1 key (rows @ [r]) = keep_greater key r (order_by_desc_limit_1 key rows)"
  by (simp add: order_by_desc_limit_1_def)

lemma obdl_empty_iff: "order_by_desc_limit_1 key rows = None \<longleftrightarrow> rows = []"
proof (induction rows rule: rev_induct)
  case Nil
  show ?case by (simp add: order_by_desc_limit_1_def)
next
  case (snoc r rows)
  show ?case by (simp add: obdl_snoc keep_greater_def split: option.split)
qed

lemma obdl_greatest:
  "order_by_desc_limit_1 key rows = Some b \<Longrightarrow> b \<in> set rows \<and> (\<forall>r \<in> set rows. key r \<le> key b)"
proof (induction rows arbitrary: b rule: rev_induct)
  case Nil
  then show ?case by (simp add: order_by_desc_limit_1_def)
next
  case (snoc r rows)
  show ?case
  proof (cases "order_by_desc_limit_1 key rows")
    case None
    then have "rows = []" by (simp add: obdl_empty_iff)
    with snoc.prems show ?thesis by (simp add: order_by_desc_limit_1_def keep_greater_def)
  next
    case (Some b0)
    from snoc.IH [OF Some] have b0: "b0 \<in> set rows" "\<forall>x \<in> set rows. key x \<le> key b0" by simp_all
    show ?thesis
    proof (cases "key b0 < key r")
      case True
      with snoc.prems Some have "b = r" by (simp add: obdl_snoc keep_greater_def)
      with True b0 show ?thesis by fastforce
    next
      case False
      with snoc.prems Some have "b = b0" by (simp add: obdl_snoc keep_greater_def)
      with False b0 show ?thesis by auto
    qed
  qed
qed

lemma fold_max_start: "m \<le> fold max xs (m::nat)"
proof (induction xs arbitrary: m)
  case Nil
  show ?case by simp
next
  case (Cons x xs)
  have "m \<le> max x m" by simp
  also have "\<dots> \<le> fold max xs (max x m)" by (rule Cons.IH)
  finally show ?case by simp
qed

lemma fold_max_ge: "x \<in> set xs \<Longrightarrow> x \<le> fold max xs (m::nat)"
proof (induction xs arbitrary: m)
  case Nil
  then show ?case by simp
next
  case (Cons y ys)
  show ?case
  proof (cases "x = y")
    case True
    have "y \<le> max y m" by simp
    also have "\<dots> \<le> fold max ys (max y m)" by (rule fold_max_start)
    finally show ?thesis using True by simp
  next
    case False
    with Cons.prems have "x \<in> set ys" by simp
    then show ?thesis using Cons.IH by simp
  qed
qed

lemma next_id_fresh: "i \<in> set ids \<Longrightarrow> i < next_id ids"
  using fold_max_ge [of i ids 0] by (simp add: next_id_def)

section \<open>The driver's parameters\<close>


lemma stmt_run_plain:
  "\<not> structured v \<Longrightarrow> stmt_run ToNumber n (v # arguments) = bind_positional n (v # arguments)"
  by (cases v) simp_all

lemma bind_positional_exact:
  "length params = n \<Longrightarrow> bind_positional n params = Inr (map bind_parameter params)"
  by (simp add: bind_positional_def)

lemma bind_named_length:
  "bind_named ToNumber n props bound = Inr result \<Longrightarrow> length result = length bound"
proof (induction props arbitrary: bound)
  case Nil
  then show ?case by simp
next
  case (Cons p props)
  obtain name v where p: "p = (name, v)" by (cases p)
  show ?case
  proof (cases "v = JUndefined")
    case True
    with Cons.prems p have "bind_named ToNumber n props bound = Inr result" by simp
    then show ?thesis by (rule Cons.IH)
  next
    case False
    with Cons.prems p have "bind_named ToNumber n props
        (bound[parameter_index ToNumber name - 1 := bind_parameter v]) = Inr result"
      by (simp split: if_splits)
    from Cons.IH [OF this] show ?thesis by simp
  qed
qed

lemma stmt_run_length:
  assumes "stmt_run ToNumber n arguments = Inr bound"
  shows "length bound = n"
proof -
  have positional: "\<And>params. bind_positional n params = Inr bound \<Longrightarrow> length bound = n"
    by (auto simp: bind_positional_def split: if_splits)
  show ?thesis
  proof (cases arguments)
    case Nil
    with assms show ?thesis by (simp add: positional)
  next
    case (Cons v rest)
    show ?thesis
    proof (cases "structured v")
      case False
      with assms Cons show ?thesis by (simp add: stmt_run_plain positional)
    next
      case True
      then show ?thesis
      proof (cases v)
        case (JArray params)
        with assms Cons show ?thesis by (simp add: positional)
      next
        case (JObject props)
        with assms Cons have "bind_named ToNumber n props (replicate n SqlNull) = Inr bound"
          by simp
        from bind_named_length [OF this] show ?thesis by simp
      qed simp_all
    qed
  qed
qed

text \<open>A row that \<^verbatim>\<open>insertData\<close> has stored is the one the liveness query selects
  next, whatever the table held before.\<close>

lemma insertData_most_recent:
  assumes "SensorData db = Some rows"
    and "insertData ToNumber db now t h f hs d v = (None, db')"
  shows "\<exists>r. SensorData db' = Some (rows @ [r])
     \<and> sd_timestamp r = now \<and> order_by_desc_limit_1 sd_id (rows @ [r]) = Some r"
proof -
  from assms obtain r where stored: "SensorData db' = Some (rows @ [r])"
    and id: "sd_id r = next_id (map sd_id rows)" and ts: "sd_timestamp r = now"
    by (auto simp: insertData_def split: sum.splits)
  have latest: "order_by_desc_limit_1 sd_id (rows @ [r]) = Some r"
  proof (cases "order_by_desc_limit_1 sd_id rows")
    case None
    then show ?thesis by (simp add: obdl_snoc keep_greater_def)
  next
    case (Some b)
    then have "b \<in> set rows" using obdl_greatest by fastforce
    then have "sd_id b < sd_id r" using next_id_fresh [of "sd_id b" "map sd_id rows"]
      by (simp add: id)
    with Some show ?thesis by (simp add: obdl_snoc keep_greater_def)
  qed
  from stored latest ts show ?thesis by blast
qed

section \<open>Device liveness\<close>

text \<open>
  Claim C2. \<^verbatim>\<open>checkDeviceStatus\<close>, on the most recent reading (the row with the
  greatest id) or none:
  with no reading it answers Offline with \<^verbatim>\<open>lastSeen\<close> the literal string N/A; with
  a reading whose age in whole seconds is at most 30 (30 included) it answers Online
  with the reading's stored timestamp; with an older reading it answers Offline with
  the reading's stored timestamp.
\<close>

theorem checkDeviceStatus_liveness:
  assumes "SensorData db = Some rows"
  shows "(rows = [] \<longrightarrow>
            checkDeviceStatus db now = Inr \<lparr>status = ''Offline'', lastSeen = Literal ''N/A''\<rparr>)
     \<and> (\<forall>reading. order_by_desc_limit_1 sd_id rows = Some reading \<longrightarrow>
            reading \<in> set rows \<and> (\<forall>x \<in> set rows. sd_id x \<le> sd_id reading)
          \<and> (now - sd_timestamp reading \<le> 30 \<longrightarrow>
               checkDeviceStatus db now =
                 Inr \<lparr>status = ''Online'', lastSeen = Stored (sd_timestamp reading)\<rparr>)
          \<and> (30 < now - sd_timestamp reading \<longrightarrow>
               checkDeviceStatus db now =
                 Inr \<lparr>status = ''Offline'', lastSeen = Stored (sd_timestamp reading)\<rparr>))"
proof -
  have "\<And>reading. order_by_desc_limit_1 sd_id rows = Some reading \<Longrightarrow>
      reading \<in> set rows \<and> (\<forall>x \<in> set rows. sd_id x \<le> sd_id reading)"
    by (rule obdl_greatest)
  with assms show ?thesis
    by (auto simp: checkDeviceStatus_def Let_def order_by_desc_limit_1_def)
qed

theorem checkDeviceStatus_liveness_witness:
  "checkDeviceStatus fresh_database 1030 =
     Inr \<lparr>status = ''Offline'', lastSeen = Literal ''N/A''\<rparr>
   \<and> checkDeviceStatus one_reading 1030 = Inr \<lparr>status = ''Online'', lastSeen = Stored 1000\<rparr>
   \<and> checkDeviceStatus one_reading 1031 = Inr \<lparr>status = ''Offline'', lastSeen = Stored 1000\<rparr>"
proof -
  define r where "r = \<lparr>sd_id = 1, sd_temperature = SqlNumber 21.5, sd_humidity = SqlNumber 40,
    sd_fanState = SqlNumber 0, sd_heaterState = Coerced IntegerAffinity (SqlText ''ON''),
    sd_deviceID = SqlText ''d1'', sd_firmwareVersion = SqlText ''1.0.0'', sd_timestamp = 1000\<rparr>"
  have none: "SensorData fresh_database = Some []"
    by (simp add: fresh_database_def)
  have one: "SensorData one_reading = Some [r]"
    by (simp add: one_reading_def insertData_def bind_positional_def fresh_database_def
        next_id_def r_def)
  have sel: "order_by_desc_limit_1 sd_id [r] = Some r"
    by (simp add: order_by_desc_limit_1_def keep_greater_def)
  show ?thesis
    using checkDeviceStatus_liveness [OF none, of 1030]
      checkDeviceStatus_liveness [OF one, of 1030]
      checkDeviceStatus_liveness [OF one, of 1031] sel
    by (simp add: r_def)
qed

section \<open>Validation of the version string in the persistence layer\<close>

text \<open>
  Claim C5. For every string that is not in the language of
  \<^verbatim>\<open>^\d+\.\d+\.\d+$\<close>, \<^verbatim>\<open>setLatestStableFirmwareVersion\<close> itself hands the
  validation error to its callback and returns the database as it was, so no row is
  written; the route that calls it rejects the same strings before the call, with
  status 400.
\<close>

theorem setLatestStableFirmwareVersion_rejects:
  assumes "v \<notin> lang versionPattern"
  shows "setLatestStableFirmwareVersion db now v = (Inl invalid_version_error, db)
     \<and> route_set_stable_latest_version db now (Some v) =
         (\<lparr>code = 400, json = invalid_version_error\<rparr>, db)"
  using assms
  by (simp add: setLatestStableFirmwareVersion_def route_set_stable_latest_version_def
      validateFirmwareVersion_def test_iff)

theorem setLatestStableFirmwareVersion_rejects_witness:
  "''1.0'' \<notin> lang versionPattern
   \<and> setLatestStableFirmwareVersion fresh_database 5 ''1.0'' =
       (Inl invalid_version_error, fresh_database)
   \<and> route_set_stable_latest_version fresh_database 5 (Some ''1.0'') =
       (\<lparr>code = 400, json = invalid_version_error\<rparr>, fresh_database)"
proof -
  have "\<not> test versionPattern ''1.0''"
    by (simp add: versionPattern_def plus1_def digit_def)
  then have short: "''1.0'' \<notin> lang versionPattern"
    by (simp add: test_iff)
  with setLatestStableFirmwareVersion_rejects [OF short, of fresh_database 5]
  show ?thesis by simp
qed

section \<open>The stable-firmware pointer\<close>

text \<open>
  When the clock has advanced past every stored timestamp, setting a valid version
  succeeds, appends one row, and the next fetch returns that version.
\<close>

lemma set_then_fetch_later_second:
  assumes "major_minor_patch v"
    and "LatestStableFirmware db = Some rows"
    and "\<forall>r \<in> set rows. fw_timestamp r < now"
  shows "\<exists>db'. setLatestStableFirmwareVersion db now v =
           (Inr (JObject [(''message'', JString ''Latest stable firmware version set successfully'')]), db')
     \<and> LatestStableFirmware db' = Some (rows @
           [\<lparr>fw_id = next_id (map fw_id rows), fw_firmwareVersion = Some v, fw_timestamp = now\<rparr>])
     \<and> fetchLatestStableFirmwareVersion db' = Inr (Some (Some v))"
proof -
  define r where "r = \<lparr>fw_id = next_id (map fw_id rows), fw_firmwareVersion = Some v, fw_timestamp = now\<rparr>"
  have valid: "validateFirmwareVersion v"
    using assms(1) by (simp add: validateFirmwareVersion_iff)
  have latest: "order_by_desc_limit_1 fw_timestamp (rows @ [r]) = Some r"
  proof (cases "order_by_desc_limit_1 fw_timestamp rows")
    case None
    then show ?thesis by (simp add: obdl_snoc keep_greater_def)
  next
    case (Some b)
    then have "b \<in> set rows" using obdl_greatest by fastforce
    with assms(3) have "fw_timestamp b < fw_timestamp r" by (simp add: r_def)
    with Some show ?thesis by (simp add: obdl_snoc keep_greater_def)
  qed
  show ?thesis
    using valid assms(2) latest
    by (simp add: setLatestStableFirmwareVersion_def fetchLatestStableFirmwareVersion_def r_def)
qed

text \<open>
  Claim C1 says that after a successful \<^verbatim>\<open>setLatestStableFirmwareVersion\<close> the
  fetch returns the version of the row inserted last. The fetch orders by
  \<^verbatim>\<open>timestamp\<close>, which \<^verbatim>\<open>CURRENT_TIMESTAMP\<close> fills with a resolution of one second,
  and not by \<^verbatim>\<open>id\<close> as the three other latest-row queries of the module do. Two
  valid versions set within the same second, on an empty table: both calls report
  success, the table holds the two rows with equal timestamps, and the fetch returns
  the first version, not the second.
\<close>

theorem latest_stable_same_second:
  "fst (setLatestStableFirmwareVersion fresh_database 100 ''1.0.0'') =
     Inr (JObject [(''message'', JString ''Latest stable firmware version set successfully'')])
   \<and> fst (setLatestStableFirmwareVersion
            (snd (setLatestStableFirmwareVersion fresh_database 100 ''1.0.0'')) 100 ''2.0.0'') =
     Inr (JObject [(''message'', JString ''Latest stable firmware version set successfully'')])
   \<and> LatestStableFirmware
        (snd (setLatestStableFirmwareVersion
               (snd (setLatestStableFirmwareVersion fresh_database 100 ''1.0.0'')) 100 ''2.0.0'')) =
     Some [\<lparr>fw_id = 1, fw_firmwareVersion = Some ''1.0.0'', fw_timestamp = 100\<rparr>,
           \<lparr>fw_id = 2, fw_firmwareVersion = Some ''2.0.0'', fw_timestamp = 100\<rparr>]
   \<and> fetchLatestStableFirmwareVersion
        (snd (setLatestStableFirmwareVersion
               (snd (setLatestStableFirmwareVersion fresh_database 100 ''1.0.0'')) 100 ''2.0.0'')) =
     Inr (Some (Some ''1.0.0''))"
proof -
  have v1: "validateFirmwareVersion ''1.0.0''"
    by (simp add: validateFirmwareVersion_def versionPattern_def plus1_def digit_def)
  have v2: "validateFirmwareVersion ''2.0.0''"
    by (simp add: validateFirmwareVersion_def versionPattern_def plus1_def digit_def)
  show ?thesis
    using v1 v2
    by (simp add: setLatestStableFirmwareVersion_def fetchLatestStableFirmwareVersion_def
        fresh_database_def order_by_desc_limit_1_def keep_greater_def next_id_def)
qed

text \<open>
  \<^verbatim>\<open>GET /latest-stable-firmware\<close>, when the pointer table can be read, answers
  from the row the query selects, one with the greatest timestamp: 404, with one and
  the same body, exactly when the table has no row or the selected row has a NULL or
  empty \<^verbatim>\<open>firmwareVersion\<close>; otherwise 200 with the selected row's version.
\<close>

lemma route_latest_stable_firmware_selected:
  assumes "LatestStableFirmware db = Some rows"
  shows "(rows = [] \<longrightarrow> route_latest_stable_firmware db =
            \<lparr>code = 404, json = JObject [(''error'', JString ''No stable firmware version found'')]\<rparr>)
     \<and> (\<forall>r. order_by_desc_limit_1 fw_timestamp rows = Some r \<longrightarrow>
            r \<in> set rows \<and> (\<forall>x \<in> set rows. fw_timestamp x \<le> fw_timestamp r)
          \<and> (fw_firmwareVersion r = None \<or> fw_firmwareVersion r = Some [] \<longrightarrow>
               route_latest_stable_firmware db =
                 \<lparr>code = 404, json = JObject [(''error'', JString ''No stable firmware version found'')]\<rparr>)
          \<and> (\<forall>v. fw_firmwareVersion r = Some v \<and> v \<noteq> [] \<longrightarrow>
               route_latest_stable_firmware db =
                 \<lparr>code = 200, json = JObject [(''firmwareVersion'', JString v)]\<rparr>))
     \<and> (code (route_latest_stable_firmware db) = 404 \<longleftrightarrow>
          rows = [] \<or> (\<exists>r. order_by_desc_limit_1 fw_timestamp rows = Some r
             \<and> (fw_firmwareVersion r = None \<or> fw_firmwareVersion r = Some [])))"
proof (cases "order_by_desc_limit_1 fw_timestamp rows")
  case None
  then have "rows = []" by (simp add: obdl_empty_iff)
  with assms None show ?thesis
    by (simp add: route_latest_stable_firmware_def fetchLatestStableFirmwareVersion_def)
next
  case (Some r)
  then have ne: "rows \<noteq> []" using obdl_empty_iff [of fw_timestamp rows] by simp
  from obdl_greatest [OF Some]
  have top: "r \<in> set rows" "\<forall>x \<in> set rows. fw_timestamp x \<le> fw_timestamp r" by simp_all
  show ?thesis
  proof (cases "fw_firmwareVersion r")
    case None
    with assms Some ne top show ?thesis
      by (simp add: route_latest_stable_firmware_def fetchLatestStableFirmwareVersion_def)
  next
    case (Some v)
    with assms \<open>order_by_desc_limit_1 fw_timestamp rows = Some r\<close> ne top show ?thesis
      by (simp add: route_latest_stable_firmware_def fetchLatestStableFirmwareVersion_def)
  qed
qed

text \<open>When the row inserted last has a later timestamp than every other row, it is
  the selected row, and the handler answers from it.\<close>

lemma obdl_newest:
  assumes "\<forall>r \<in> set rows. key r < key new"
  shows "order_by_desc_limit_1 key (rows @ [new]) = Some new"
proof (cases "order_by_desc_limit_1 key rows")
  case None
  then show ?thesis by (simp add: obdl_snoc keep_greater_def)
next
  case (Some b)
  then have "b \<in> set rows" using obdl_greatest by fastforce
  with assms have "key b < key new" by simp
  with Some show ?thesis by (simp add: obdl_snoc keep_greater_def)
qed

lemma route_latest_stable_firmware_later_second:
  assumes "LatestStableFirmware db = Some (rows @ [new])"
    and "\<forall>r \<in> set rows. fw_timestamp r < fw_timestamp new"
  shows "route_latest_stable_firmware db =
     (case fw_firmwareVersion new of
        None \<Rightarrow>
          \<lparr>code = 404, json = JObject [(''error'', JString ''No stable firmware version found'')]\<rparr>
      | Some v \<Rightarrow>
          if v = [] then
            \<lparr>code = 404, json = JObject [(''error'', JString ''No stable firmware version found'')]\<rparr>
          else \<lparr>code = 200, json = JObject [(''firmwareVersion'', JString v)]\<rparr>)"
  using assms(1) obdl_newest [OF assms(2)]
  by (simp add: route_latest_stable_firmware_def fetchLatestStableFirmwareVersion_def
      split: option.split)

text \<open>
  Claim C8 says that the handler answers from the most recent pointer row: 404 when
  there is none or its version is empty or absent, otherwise 200 with its version.
  The handler answers from the row that \<^verbatim>\<open>fetchLatestStableFirmwareVersion\<close>
  selects, and that is not the most recent row when rows share a second (the defect
  of claim C1). Two valid versions set within the same second, on an empty table:
  the most recent row holds \<^verbatim>\<open>2.0.0\<close>, and the handler answers 200 with
  \<^verbatim>\<open>1.0.0\<close>.
\<close>

theorem route_latest_stable_firmware_same_second:
  "LatestStableFirmware
     (snd (setLatestStableFirmwareVersion
            (snd (setLatestStableFirmwareVersion fresh_database 100 ''1.0.0'')) 100 ''2.0.0'')) =
     Some [\<lparr>fw_id = 1, fw_firmwareVersion = Some ''1.0.0'', fw_timestamp = 100\<rparr>,
           \<lparr>fw_id = 2, fw_firmwareVersion = Some ''2.0.0'', fw_timestamp = 100\<rparr>]
   \<and> route_latest_stable_firmware
       (snd (setLatestStableFirmwareVersion
              (snd (setLatestStableFirmwareVersion fresh_database 100 ''1.0.0'')) 100 ''2.0.0'')) =
     \<lparr>code = 200, json = JObject [(''firmwareVersion'', JString ''1.0.0'')]\<rparr>"
proof -
  have v1: "validateFirmwareVersion ''1.0.0''"
    by (simp add: validateFirmwareVersion_def versionPattern_def plus1_def digit_def)
  have v2: "validateFirmwareVersion ''2.0.0''"
    by (simp add: validateFirmwareVersion_def versionPattern_def plus1_def digit_def)
  show ?thesis
    using v1 v2
    by (simp add: setLatestStableFirmwareVersion_def fetchLatestStableFirmwareVersion_def
        route_latest_stable_firmware_def fresh_database_def order_by_desc_limit_1_def
        keep_greater_def next_id_def)
qed

section \<open>Registration\<close>

lemma createUser_duplicate:
  assumes "users db = Some rows" and "username \<in> set (map u_username rows)"
  shows "createUser db username password = (Some SQLITE_CONSTRAINT, db)"
  using assms by (simp add: createUser_def)

lemma find_present:
  assumes "username \<in> set (map u_username rows)"
  shows "\<exists>user. find (\<lambda>r. u_username r = username) rows = Some user"
proof (cases "find (\<lambda>r. u_username r = username) rows")
  case None
  with assms show ?thesis by (auto simp: find_None_iff)
next
  case (Some user)
  then show ?thesis by simp
qed

lemma one_user_rows:
  "users one_user = Some [\<lparr>u_id = 1, u_username = ''alice'', u_password = ''Secret1!''\<rparr>]"
  by (simp add: one_user_def createUser_def fresh_database_def next_id_def)

lemma valid_alice: "validateUsername ''alice''"
  by (simp add: validateUsername_def eval_nat_numeral word_char_def lower_def upper_def digit_def)

lemma valid_secret: "validatePassword ''Secret1!''"
  by code_simp

lemma invalid_weak: "\<not> validatePassword ''weak''"
  by code_simp

text \<open>
  Claim C7, as the code has it. The handler validates the username and the password
  before it looks the username up. For a username that is already stored, the table
  is never changed and the answer is always 400: the username rule when the username
  fails its validator, else the password rule when the password fails its validator,
  else the duplicate-username answer. \<^verbatim>\<open>createUser\<close> itself refuses the username
  with the store's constraint error.
\<close>

theorem register_existing_username:
  assumes "users db = Some rows" and "username \<in> set (map u_username rows)"
  shows "snd (route_register db username password) = db
     \<and> code (fst (route_register db username password)) = 400
     \<and> (\<not> validateUsername username \<longrightarrow>
          route_register db username password = (\<lparr>code = 400, json = username_rule\<rparr>, db))
     \<and> (validateUsername username \<and> \<not> validatePassword password \<longrightarrow>
          route_register db username password = (\<lparr>code = 400, json = password_rule\<rparr>, db))
     \<and> (validateUsername username \<and> validatePassword password \<longrightarrow>
          route_register db username password =
            (\<lparr>code = 400, json = JObject [(''error'', JString ''Username already exists'')]\<rparr>, db))
     \<and> createUser db username password = (Some SQLITE_CONSTRAINT, db)"
proof -
  from find_present [OF assms(2)] obtain user
    where "find (\<lambda>r. u_username r = username) rows = Some user" by blast
  with assms(1) createUser_duplicate [OF assms] show ?thesis
    by (simp add: route_register_def findUserByUsername_def)
qed

theorem register_existing_username_witness:
  "users one_user = Some [\<lparr>u_id = 1, u_username = ''alice'', u_password = ''Secret1!''\<rparr>]
   \<and> route_register one_user ''alice'' ''Secret1!'' =
       (\<lparr>code = 400, json = JObject [(''error'', JString ''Username already exists'')]\<rparr>, one_user)
   \<and> route_register one_user ''alice'' ''weak'' = (\<lparr>code = 400, json = password_rule\<rparr>, one_user)"
  using register_existing_username [OF one_user_rows, of "''alice''" "''Secret1!''"]
    register_existing_username [OF one_user_rows, of "''alice''" "''weak''"]
    one_user_rows valid_alice valid_secret invalid_weak
  by simp

text \<open>Claim C7 as stated fails: a stored username sent with a password that the
  validator rejects is answered with the password rule, not with the
  duplicate-username answer.\<close>

theorem register_existing_username_weak_password:
  "users one_user = Some [\<lparr>u_id = 1, u_username = ''alice'', u_password = ''Secret1!''\<rparr>]
   \<and> route_register one_user ''alice'' ''weak'' = (\<lparr>code = 400, json = password_rule\<rparr>, one_user)
   \<and> password_rule \<noteq> JObject [(''error'', JString ''Username already exists'')]"
  using one_user_rows valid_alice invalid_weak
  by (simp add: route_register_def password_rule_def)

section \<open>Serial messages\<close>





section \<open>The dispatcher\<close>

lemma parse_data: "sample_parse data_payload =
    Inr (JObject [(''messageType'', JString ''data''), (''temperature'', JNumber 21.5),
               (''humidity'', JNumber 40), (''heaterState'', JString ''ON''),
               (''deviceID'', JString ''d1''), (''version'', JString ''1.0.0'')])"
  by (simp add: sample_parse_def)

lemma parse_serial: "sample_parse serial_payload =
    Inr (JObject [(''messageType'', JString ''serial''), (''serialMessage'', JString ''boot ok'')])"
  by (simp add: sample_parse_def serial_payload_def data_payload_def)

lemma parse_unknown: "sample_parse unknown_payload = Inr (JObject [(''messageType'', JString ''unknown'')])"
  by (simp add: sample_parse_def serial_payload_def data_payload_def unknown_payload_def)



lemma parse_garbage: "sample_parse ''21.5C'' = Inl SyntaxError"
  by (simp add: sample_parse_def serial_payload_def data_payload_def unknown_payload_def
      bare_data_payload_def object_temperature_payload_def)

lemma null_payload_is_caught:
  "JSON_parse message = Inr JNull \<Longrightarrow> on_message JSON_parse message = []"
  by (simp add: on_message_def try_block_def)

lemma at_most_one_call: "length (on_message JSON_parse message) \<le> 1"
  by (simp add: on_message_def try_block_def split: sum.splits)


text \<open>
  Claim C3. A parsed object whose \<^verbatim>\<open>messageType\<close> is the string data causes exactly
  one \<^verbatim>\<open>insertData\<close> call, with \<^verbatim>\<open>false\<close> as its \<^verbatim>\<open>fanState\<close>: the listener
  records that one call and leaves the database as that call leaves it. One whose
  \<^verbatim>\<open>messageType\<close> is the string serial causes exactly one
  \<^verbatim>\<open>insertSerialMessage\<close> call with the payload's \<^verbatim>\<open>serialMessage\<close>, in the
  same sense. Any other or missing \<^verbatim>\<open>messageType\<close> causes no call and leaves the
  database as it was; a payload that does not parse causes no call either, and the
  error ends in the \<^verbatim>\<open>catch\<close> clause.
\<close>

theorem on_message_dispatch:
  "(JSON_parse message = Inr (JObject props) \<and> map_of props ''messageType'' = Some (JString ''data'') \<longrightarrow>
      on_message JSON_parse message =
        [InsertData (property (JObject props) ''temperature'') (property (JObject props) ''humidity'')
           (JBool False) (property (JObject props) ''heaterState'')
           (property (JObject props) ''deviceID'') (property (JObject props) ''version'')]
      \<and> handleMQTTMessages JSON_parse ToNumber now db message =
          snd (insertData ToNumber db now (property (JObject props) ''temperature'')
                 (property (JObject props) ''humidity'') (JBool False)
                 (property (JObject props) ''heaterState'') (property (JObject props) ''deviceID'')
                 (property (JObject props) ''version'')))
   \<and> (JSON_parse message = Inr (JObject props) \<and> map_of props ''messageType'' = Some (JString ''serial'') \<longrightarrow>
      on_message JSON_parse message = [InsertSerialMessage (property (JObject props) ''serialMessage'')]
      \<and> handleMQTTMessages JSON_parse ToNumber now db message =
          snd (insertSerialMessage ToNumber db (property (JObject props) ''serialMessage'')))
   \<and> (JSON_parse message = Inr (JObject props) \<and> map_of props ''messageType'' \<noteq> Some (JString ''data'')
        \<and> map_of props ''messageType'' \<noteq> Some (JString ''serial'') \<longrightarrow>
      on_message JSON_parse message = []
      \<and> handleMQTTMessages JSON_parse ToNumber now db message = db)
   \<and> (JSON_parse message = Inl e \<longrightarrow>
      try_block JSON_parse message = Inl e \<and> on_message JSON_parse message = []
      \<and> handleMQTTMessages JSON_parse ToNumber now db message = db)"
  by (auto simp: on_message_def try_block_def handleMQTTMessages_def split: option.splits)

theorem on_message_dispatch_witness:
  "on_message sample_parse data_payload =
     [InsertData (JNumber 21.5) (JNumber 40) (JBool False) (JString ''ON'') (JString ''d1'')
        (JString ''1.0.0'')]
   \<and> handleMQTTMessages sample_parse sample_ToNumber 1000 fresh_database data_payload =
       fresh_database\<lparr>SensorData :=
         Some [\<lparr>sd_id = 1, sd_temperature = SqlNumber 21.5, sd_humidity = SqlNumber 40,
                sd_fanState = SqlNumber 0,
                sd_heaterState = Coerced IntegerAffinity (SqlText ''ON''),
                sd_deviceID = SqlText ''d1'', sd_firmwareVersion = SqlText ''1.0.0'',
                sd_timestamp = 1000\<rparr>]\<rparr>
   \<and> on_message sample_parse serial_payload = [InsertSerialMessage (JString ''boot ok'')]
   \<and> handleMQTTMessages sample_parse sample_ToNumber 1000 fresh_database serial_payload =
       fresh_database\<lparr>SerialMessages := Some [\<lparr>sm_id = 1, sm_message = SqlText ''boot ok''\<rparr>]\<rparr>
   \<and> on_message sample_parse unknown_payload = []
   \<and> handleMQTTMessages sample_parse sample_ToNumber 1000 fresh_database unknown_payload =
       fresh_database
   \<and> on_message sample_parse ''21.5C'' = []
   \<and> handleMQTTMessages sample_parse sample_ToNumber 1000 fresh_database ''21.5C'' =
       fresh_database"
proof -
  have data: "snd (insertData sample_ToNumber fresh_database 1000 (JNumber 21.5) (JNumber 40)
      (JBool False) (JString ''ON'') (JString ''d1'') (JString ''1.0.0'')) =
       fresh_database\<lparr>SensorData :=
         Some [\<lparr>sd_id = 1, sd_temperature = SqlNumber 21.5, sd_humidity = SqlNumber 40,
                sd_fanState = SqlNumber 0,
                sd_heaterState = Coerced IntegerAffinity (SqlText ''ON''),
                sd_deviceID = SqlText ''d1'', sd_firmwareVersion = SqlText ''1.0.0'',
                sd_timestamp = 1000\<rparr>]\<rparr>"
    by (simp add: insertData_def bind_positional_def fresh_database_def next_id_def)
  have serial: "snd (insertSerialMessage sample_ToNumber fresh_database (JString ''boot ok'')) =
       fresh_database\<lparr>SerialMessages := Some [\<lparr>sm_id = 1, sm_message = SqlText ''boot ok''\<rparr>]\<rparr>"
    by (simp add: insertSerialMessage_def bind_positional_def fresh_database_def next_id_def)
  show ?thesis
    using on_message_dispatch [where JSON_parse = sample_parse and message = data_payload
      and ToNumber = sample_ToNumber and now = 1000 and db = fresh_database
      and props = "[(''messageType'', JString ''data''), (''temperature'', JNumber 21.5),
               (''humidity'', JNumber 40), (''heaterState'', JString ''ON''),
               (''deviceID'', JString ''d1''), (''version'', JString ''1.0.0'')]"]
    on_message_dispatch [where JSON_parse = sample_parse and message = serial_payload
      and ToNumber = sample_ToNumber and now = 1000 and db = fresh_database
      and props = "[(''messageType'', JString ''serial''), (''serialMessage'', JString ''boot ok'')]"]
    on_message_dispatch [where JSON_parse = sample_parse and message = unknown_payload
      and ToNumber = sample_ToNumber and now = 1000 and db = fresh_database
      and props = "[(''messageType'', JString ''unknown'')]"]
    on_message_dispatch [where JSON_parse = sample_parse and message = "''21.5C''"
      and ToNumber = sample_ToNumber and now = 1000 and db = fresh_database and e = SyntaxError]
    parse_data parse_serial parse_unknown parse_garbage data serial
    by (simp add: property_def)
qed




section \<open>Firmware binaries\<close>

lemma delete_file_result:
  assumes "delete_file b name = Inr b'"
  shows "objects b' = filter (\<lambda>entry. fst entry \<noteq> name) (objects b) \<and> online b' = online b"
  using assms by (auto simp: delete_file_def split: if_splits)

lemma delete_each_result:
  assumes "delete_each b names = Inr b'"
  shows "objects b' = filter (\<lambda>entry. fst entry \<notin> set names) (objects b) \<and> online b' = online b"
  using assms
proof (induction names arbitrary: b)
  case Nil
  then show ?case by simp
next
  case (Cons name names)
  from Cons.prems obtain b1 where first: "delete_file b name = Inr b1"
    and rest: "delete_each b1 names = Inr b'"
    by (auto split: sum.splits)
  from delete_file_result [OF first] Cons.IH [OF rest]
  show ?case by (simp add: conj_commute)
qed

lemma replace_under_prefix:
  assumes on: "online b" and pd: "prefix pre dest"
    and del: "(if length (filter (prefix pre) (map fst (objects b))) > 0
               then delete_each b (filter (prefix pre) (map fst (objects b))) else Inr b) = Inr b1"
    and sav: "save b1 dest obj = Inr b'"
  shows "objects b' = filter (\<lambda>entry. \<not> prefix pre (fst entry)) (objects b) @ [(dest, obj)]
     \<and> online b'"
proof -
  let ?existing = "filter (prefix pre) (map fst (objects b))"
  have b1: "objects b1 = filter (\<lambda>entry. \<not> prefix pre (fst entry)) (objects b) \<and> online b1"
  proof (cases "length ?existing > 0")
    case True
    with del have "delete_each b ?existing = Inr b1" by simp
    from delete_each_result [OF this] on show ?thesis
      by (auto intro: filter_cong)
  next
    case False
    then have none: "\<forall>entry \<in> set (objects b). \<not> prefix pre (fst entry)"
      by (auto simp: filter_empty_conv)
    from False del have "b1 = b" by simp
    with none on show ?thesis by (simp add: filter_id_conv)
  qed
  from sav b1 have "objects b' = filter (\<lambda>entry. fst entry \<noteq> dest) (objects b1) @ [(dest, obj)]"
    and "online b'"
    by (auto simp: save_def split: if_splits)
  moreover have "filter (\<lambda>entry. fst entry \<noteq> dest) (objects b1) = objects b1"
  proof -
    have "\<forall>entry \<in> set (objects b1). fst entry \<noteq> dest" using b1 pd by auto
    then show ?thesis by (simp add: filter_id_conv)
  qed
  ultimately show ?thesis using b1 by simp
qed


lemma upload_result:
  assumes "uploadFileToFirebaseStorage b file v = Inr (p, b')"
  shows "p = ''firmware/'' @ v @ ''/firmware.bin''
     \<and> objects b' = filter (\<lambda>entry. \<not> prefix (''firmware/'' @ v @ ''/'') (fst entry)) (objects b)
         @ [(''firmware/'' @ v @ ''/firmware.bin'', \<lparr>content = buffer file, contentType = mimetype file\<rparr>)]
     \<and> online b'"
proof -
  define pre where "pre = ''firmware/'' @ v @ ''/''"
  define dest where "dest = ''firmware/'' @ v @ ''/firmware.bin''"
  define obj where "obj = \<lparr>content = buffer file, contentType = mimetype file\<rparr>"
  have pd: "prefix pre dest" by (simp add: pre_def dest_def)
  have body: "uploadFileToFirebaseStorage b file v =
      (case getFiles b pre of
         Inl e \<Rightarrow> Inl e
       | Inr existingFiles \<Rightarrow>
           (case (if length existingFiles > 0 then delete_each b existingFiles else Inr b) of
              Inl e \<Rightarrow> Inl e
            | Inr b1 \<Rightarrow> (case save b1 dest obj of Inl e \<Rightarrow> Inl e | Inr b2 \<Rightarrow> Inr (dest, b2))))"
    by (simp only: uploadFileToFirebaseStorage_def Let_def pre_def dest_def obj_def)
  from assms have on: "online b"
    unfolding body by (auto simp: getFiles_def split: if_splits)
  then have listing: "getFiles b pre = Inr (filter (prefix pre) (map fst (objects b)))"
    by (simp add: getFiles_def)
  from assms obtain b1 where
    del: "(if length (filter (prefix pre) (map fst (objects b))) > 0
           then delete_each b (filter (prefix pre) (map fst (objects b))) else Inr b) = Inr b1"
    and sav: "save b1 dest obj = Inr b'" and p: "p = dest"
    unfolding body listing by (auto split: sum.splits)
  from replace_under_prefix [OF on pd del sav] p
  show ?thesis by (simp only: pre_def dest_def obj_def) 
qed

lemma delete_each_succeeds:
  assumes "online b" and "distinct names" and "set names \<subseteq> set (map fst (objects b))"
  shows "\<exists>b'. delete_each b names = Inr b'"
  using assms
proof (induction names arbitrary: b)
  case Nil
  show ?case by simp
next
  case (Cons name names)
  define b1 where "b1 = b\<lparr>objects := filter (\<lambda>entry. fst entry \<noteq> name) (objects b)\<rparr>"
  from Cons.prems have first: "delete_file b name = Inr b1"
    by (simp add: delete_file_def b1_def)
  have "online b1" using Cons.prems(1) by (simp add: b1_def)
  moreover have "distinct names" using Cons.prems(2) by simp
  moreover have "set names \<subseteq> set (map fst (objects b1))"
  proof
    fix x assume x: "x \<in> set names"
    with Cons.prems(2) have "x \<noteq> name" by auto
    moreover from x Cons.prems(3) obtain entry where "entry \<in> set (objects b)" "fst entry = x"
      by auto
    ultimately show "x \<in> set (map fst (objects b1))" by (force simp: b1_def)
  qed
  ultimately obtain b' where "delete_each b1 names = Inr b'"
    using Cons.IH by blast
  with first show ?case by simp
qed

lemma upload_succeeds:
  assumes "online b" and "distinct (map fst (objects b))"
  shows "\<exists>b'. uploadFileToFirebaseStorage b file v = Inr (''firmware/'' @ v @ ''/firmware.bin'', b')
     \<and> online b' \<and> distinct (map fst (objects b'))"
proof -
  define pre where "pre = ''firmware/'' @ v @ ''/''"
  define dest where "dest = ''firmware/'' @ v @ ''/firmware.bin''"
  define obj where "obj = \<lparr>content = buffer file, contentType = mimetype file\<rparr>"
  define existing where "existing = filter (prefix pre) (map fst (objects b))"
  have body: "uploadFileToFirebaseStorage b file v =
      (case getFiles b pre of
         Inl e \<Rightarrow> Inl e
       | Inr existingFiles \<Rightarrow>
           (case (if length existingFiles > 0 then delete_each b existingFiles else Inr b) of
              Inl e \<Rightarrow> Inl e
            | Inr b1 \<Rightarrow> (case save b1 dest obj of Inl e \<Rightarrow> Inl e | Inr b2 \<Rightarrow> Inr (dest, b2))))"
    by (simp only: uploadFileToFirebaseStorage_def Let_def pre_def dest_def obj_def)
  have listing: "getFiles b pre = Inr existing"
    using assms(1) by (simp add: getFiles_def existing_def)
  have "\<exists>b1. delete_each b existing = Inr b1"
    using assms by (intro delete_each_succeeds) (auto simp: existing_def)
  then obtain b1 where del: "delete_each b existing = Inr b1" by blast
  define b1' where "b1' = (if length existing > 0 then b1 else b)"
  have on1: "online b1'"
    using delete_each_result [OF del] assms(1) by (simp add: b1'_def)
  have step: "(if length existing > 0 then delete_each b existing else Inr b) = Inr b1'"
    using del by (simp add: b1'_def)
  obtain b' where sav: "save b1' dest obj = Inr b'"
    using on1 by (simp add: save_def)
  have up: "uploadFileToFirebaseStorage b file v = Inr (dest, b')"
    unfolding body listing using step sav by simp
  from upload_result [OF up]
  have on': "online b'" and objs: "objects b' =
      filter (\<lambda>entry. \<not> prefix pre (fst entry)) (objects b) @ [(dest, obj)]"
    by (simp_all only: pre_def dest_def obj_def)
  have pd: "prefix pre dest" by (simp add: pre_def dest_def)
  have "distinct (map fst (objects b'))"
    using assms(2) pd by (auto simp: objs distinct_map_filter)
  with up on' show ?thesis by (auto simp only: dest_def)
qed

lemma first_upload:
  "uploadFileToFirebaseStorage sample_bucket first_file ''1.0.0'' =
     Inr (''firmware/1.0.0/firmware.bin'',
       \<lparr>objects =
          [(''firmware/2.0.0/firmware.bin'', \<lparr>content = ''two'', contentType = ''application/octet-stream''\<rparr>),
           (''firmware/1.0.0/firmware.bin'', \<lparr>content = ''AAAA'', contentType = ''application/octet-stream''\<rparr>)],
        online = True\<rparr>)"
  by (simp add: uploadFileToFirebaseStorage_def Let_def getFiles_def delete_file_def save_def
      sample_bucket_def first_file_def)

lemma second_upload:
  "uploadFileToFirebaseStorage
     \<lparr>objects =
        [(''firmware/2.0.0/firmware.bin'', \<lparr>content = ''two'', contentType = ''application/octet-stream''\<rparr>),
         (''firmware/1.0.0/firmware.bin'', \<lparr>content = ''AAAA'', contentType = ''application/octet-stream''\<rparr>)],
      online = True\<rparr> second_file ''1.0.0'' =
     Inr (''firmware/1.0.0/firmware.bin'',
       \<lparr>objects =
          [(''firmware/2.0.0/firmware.bin'', \<lparr>content = ''two'', contentType = ''application/octet-stream''\<rparr>),
           (''firmware/1.0.0/firmware.bin'', \<lparr>content = ''BBBB'', contentType = ''application/octet-stream''\<rparr>)],
        online = True\<rparr>)"
  by (simp add: uploadFileToFirebaseStorage_def Let_def getFiles_def delete_file_def save_def
      second_file_def)

text \<open>
  Claim C4. After two successful uploads of the same version string, the listing
  under \<^verbatim>\<open>firmware/v/\<close> has exactly one object, \<^verbatim>\<open>firmware/v/firmware.bin\<close>, and
  it holds the second upload: the upload deletes every object under the prefix
  before it stores the new one.
\<close>

theorem upload_twice_one_object:
  assumes "uploadFileToFirebaseStorage b0 file1 v = Inr (p1, b1)"
    and "uploadFileToFirebaseStorage b1 file2 v = Inr (p2, b2)"
  shows "getFiles b2 (''firmware/'' @ v @ ''/'') = Inr [''firmware/'' @ v @ ''/firmware.bin'']
     \<and> filter (\<lambda>entry. prefix (''firmware/'' @ v @ ''/'') (fst entry)) (objects b2) =
         [(''firmware/'' @ v @ ''/firmware.bin'',
           \<lparr>content = buffer file2, contentType = mimetype file2\<rparr>)]
     \<and> p2 = ''firmware/'' @ v @ ''/firmware.bin''"
proof -
  define pre where "pre = ''firmware/'' @ v @ ''/''"
  define dest where "dest = ''firmware/'' @ v @ ''/firmware.bin''"
  have pd: "prefix pre dest" by (simp add: pre_def dest_def)
  from upload_result [OF assms(2)]
  have p2: "p2 = dest" and on: "online b2"
    and objs: "objects b2 = filter (\<lambda>entry. \<not> prefix pre (fst entry)) (objects b1)
        @ [(dest, \<lparr>content = buffer file2, contentType = mimetype file2\<rparr>)]"
    by (simp_all only: pre_def dest_def)
  have only: "filter (\<lambda>entry. prefix pre (fst entry)) (objects b2) =
      [(dest, \<lparr>content = buffer file2, contentType = mimetype file2\<rparr>)]"
    using pd by (simp add: objs)
  have "filter (prefix pre) (map fst (objects b2)) = map fst (filter (\<lambda>entry. prefix pre (fst entry)) (objects b2))"
    by (simp add: filter_map comp_def)
  with only on have "getFiles b2 pre = Inr [dest]" by (simp add: getFiles_def)
  with only p2 show ?thesis by (simp only: pre_def dest_def) 
qed

theorem upload_twice_one_object_witness:
  "uploadFileToFirebaseStorage sample_bucket first_file ''1.0.0'' =
     Inr (''firmware/1.0.0/firmware.bin'',
       \<lparr>objects =
          [(''firmware/2.0.0/firmware.bin'', \<lparr>content = ''two'', contentType = ''application/octet-stream''\<rparr>),
           (''firmware/1.0.0/firmware.bin'', \<lparr>content = ''AAAA'', contentType = ''application/octet-stream''\<rparr>)],
        online = True\<rparr>)
   \<and> uploadFileToFirebaseStorage
       \<lparr>objects =
          [(''firmware/2.0.0/firmware.bin'', \<lparr>content = ''two'', contentType = ''application/octet-stream''\<rparr>),
           (''firmware/1.0.0/firmware.bin'', \<lparr>content = ''AAAA'', contentType = ''application/octet-stream''\<rparr>)],
        online = True\<rparr> second_file ''1.0.0'' =
     Inr (''firmware/1.0.0/firmware.bin'',
       \<lparr>objects =
          [(''firmware/2.0.0/firmware.bin'', \<lparr>content = ''two'', contentType = ''application/octet-stream''\<rparr>),
           (''firmware/1.0.0/firmware.bin'', \<lparr>content = ''BBBB'', contentType = ''application/octet-stream''\<rparr>)],
        online = True\<rparr>)
   \<and> getFiles
       \<lparr>objects =
          [(''firmware/2.0.0/firmware.bin'', \<lparr>content = ''two'', contentType = ''application/octet-stream''\<rparr>),
           (''firmware/1.0.0/firmware.bin'', \<lparr>content = ''BBBB'', contentType = ''application/octet-stream''\<rparr>)],
        online = True\<rparr> ''firmware/1.0.0/'' = Inr [''firmware/1.0.0/firmware.bin'']"
  using upload_twice_one_object [OF first_upload second_upload] first_upload second_upload
  by (simp add: second_file_def)

section \<open>Listing the firmware versions\<close>

lemma strip_prefix_iff: "strip_prefix p s = Some r \<longleftrightarrow> s = p @ r"
  by (induction p s rule: strip_prefix.induct) auto

lemma slash_ends_run: "\<not> digit_or_dot (CHR ''/'')"
  by (simp add: digit_or_dot_def digit_def)

lemma run_then_slash:
  assumes "list_all digit_or_dot v"
  shows "takeWhile digit_or_dot (v @ CHR ''/'' # t) = v"
    and "dropWhile digit_or_dot (v @ CHR ''/'' # t) = CHR ''/'' # t"
  using assms slash_ends_run by (induction v) simp_all

lemma match_group_1_iff:
  "match_group_1 filePath = Some v \<longleftrightarrow>
     v \<noteq> [] \<and> list_all digit_or_dot v \<and> filePath = ''firmware/'' @ v @ ''/firmware.bin''"
proof
  assume m: "match_group_1 filePath = Some v"
  then obtain rest where rest: "strip_prefix ''firmware/'' filePath = Some rest"
    by (auto simp: match_group_1_def split: option.splits)
  with m have v: "v = takeWhile digit_or_dot rest" and ne: "v \<noteq> []"
    and tail: "dropWhile digit_or_dot rest = ''/firmware.bin''"
    by (auto simp: match_group_1_def split: if_splits)
  have "rest = takeWhile digit_or_dot rest @ dropWhile digit_or_dot rest" by simp
  with v tail have "rest = v @ ''/firmware.bin''" by simp
  moreover from rest have "filePath = ''firmware/'' @ rest" by (simp only: strip_prefix_iff)
  moreover have "list_all digit_or_dot v"
    unfolding v by (auto simp: list_all_iff dest: set_takeWhileD)
  ultimately show "v \<noteq> [] \<and> list_all digit_or_dot v \<and> filePath = ''firmware/'' @ v @ ''/firmware.bin''"
    using ne by simp
next
  assume a: "v \<noteq> [] \<and> list_all digit_or_dot v \<and> filePath = ''firmware/'' @ v @ ''/firmware.bin''"
  then have "filePath = ''firmware/'' @ (v @ ''/firmware.bin'')" by simp
  then have rest: "strip_prefix ''firmware/'' filePath = Some (v @ ''/firmware.bin'')"
    by (simp only: strip_prefix_iff)
  from a have run: "list_all digit_or_dot v" by simp
  have "takeWhile digit_or_dot (v @ ''/firmware.bin'') = v"
    and "dropWhile digit_or_dot (v @ ''/firmware.bin'') = ''/firmware.bin''"
    using run_then_slash [OF run, of "''firmware.bin''"] by simp_all
  with rest a show "match_group_1 filePath = Some v"
    by (simp add: match_group_1_def)
qed

lemma pattern_matches_iff: "test firmwarePathPattern filePath \<longleftrightarrow> match_group_1 filePath \<noteq> None"
proof -
  have "filePath \<in> lang firmwarePathPattern \<longleftrightarrow>
      (\<exists>v. v \<noteq> [] \<and> list_all digit_or_dot v \<and> filePath = ''firmware/'' @ v @ ''/firmware.bin'')"
    unfolding firmwarePathPattern_def lang.simps lang_lit lang_plus1_cls cat_def by blast
  then show ?thesis by (auto simp: test_iff match_group_1_iff)
qed

lemma set_collected:
  "set (fold collect_version files acc) =
     set acc \<union> {v. \<exists>filePath \<in> set files. match_group_1 filePath = Some v}"
proof (induction files arbitrary: acc)
  case Nil
  show ?case by simp
next
  case (Cons f files)
  have "set (collect_version f acc) = set acc \<union> {v. match_group_1 f = Some v}"
    by (auto simp: collect_version_def Set_add_def split: option.splits)
  then show ?case by (auto simp: Cons.IH)
qed

lemma distinct_collected: "distinct acc \<Longrightarrow> distinct (fold collect_version files acc)"
proof (induction files arbitrary: acc)
  case Nil
  then show ?case by simp
next
  case (Cons f files)
  from Cons.prems have "distinct (collect_version f acc)"
    by (auto simp: collect_version_def Set_add_def split: option.splits)
  then show ?case by (simp add: Cons.IH)
qed

lemma listed_versions:
  "listFirmwareVersions listed_bucket = Inr [''1.0.0'', ''1..2'', ''1.2.3.4'']"
  by (simp add: listFirmwareVersions_def getFiles_def listed_bucket_def collect_version_def
      match_group_1_def Set_add_def digit_or_dot_def digit_def)

lemma not_versions:
  "\<not> validateFirmwareVersion ''1..2'' \<and> \<not> validateFirmwareVersion ''1.2.3.4''"
  by (simp add: validateFirmwareVersion_def versionPattern_def plus1_def digit_def)

text \<open>
  Claim C10. \<^verbatim>\<open>listFirmwareVersions\<close> returns, each once, exactly the strings \<open>v\<close>
  that are non-empty, consist of digits and dots, and for which some object is named
  \<^verbatim>\<open>firmware/v/firmware.bin\<close>. The strings need not be versions: for
  \<open>listed_bucket\<close> the result holds \<^verbatim>\<open>1..2\<close> and \<^verbatim>\<open>1.2.3.4\<close>, which
  \<^verbatim>\<open>validateFirmwareVersion\<close> rejects, while its names of any other shape
  contribute nothing.
\<close>

theorem listFirmwareVersions_exact:
  assumes "online b"
  shows "\<exists>versions. listFirmwareVersions b = Inr versions \<and> distinct versions
     \<and> set versions = {v. v \<noteq> [] \<and> list_all digit_or_dot v
          \<and> ''firmware/'' @ v @ ''/firmware.bin'' \<in> set (map fst (objects b))}"
proof -
  have all: "getFiles b [] = Inr (map fst (objects b))"
    using assms by (simp add: getFiles_def)
  have "set (fold collect_version (map fst (objects b)) []) =
      {v. v \<noteq> [] \<and> list_all digit_or_dot v
          \<and> ''firmware/'' @ v @ ''/firmware.bin'' \<in> set (map fst (objects b))}"
    unfolding set_collected match_group_1_iff by auto
  moreover have "distinct (fold collect_version (map fst (objects b)) [])"
    by (rule distinct_collected) simp
  ultimately show ?thesis by (simp add: listFirmwareVersions_def all)
qed

theorem listFirmwareVersions_exact_witness:
  "online listed_bucket
   \<and> listFirmwareVersions listed_bucket = Inr [''1.0.0'', ''1..2'', ''1.2.3.4'']
   \<and> set [''1.0.0'', ''1..2'', ''1.2.3.4''] =
       {v. v \<noteq> [] \<and> list_all digit_or_dot v
          \<and> ''firmware/'' @ v @ ''/firmware.bin'' \<in> set (map fst (objects listed_bucket))}
   \<and> \<not> validateFirmwareVersion ''1..2'' \<and> \<not> validateFirmwareVersion ''1.2.3.4''"
proof -
  have on: "online listed_bucket" by (simp add: listed_bucket_def)
  from listFirmwareVersions_exact [OF on] listed_versions
  have "set [''1.0.0'', ''1..2'', ''1.2.3.4''] =
       {v. v \<noteq> [] \<and> list_all digit_or_dot v
          \<and> ''firmware/'' @ v @ ''/firmware.bin'' \<in> set (map fst (objects listed_bucket))}"
    by auto
  with on listed_versions not_versions show ?thesis by blast
qed

end
